theory Spec2Isabelle
  imports Complex_Main
begin

section \<open>COCO metric utilities of keras\_cv (\<open>keras_cv/metrics/coco/utils.py\<close>)\<close>

text \<open>
  The module is a handful of functions over TensorFlow tensors and over dictionaries of
  tensors. A tensor is modelled as TensorFlow stores it: its shape and its entries in
  row-major order. Floating-point entries are modelled as real numbers (no rounding, no
  NaN); the integer entries of index tensors as \<open>nat\<close> and \<open>int\<close>. Every exception the
  Python raises is a value \<open>Inl e\<close> of the result.
\<close>

subsection \<open>Errors\<close>

text \<open>
  The constructors are the Python exception classes; the string is a short tag of the
  message. \<open>InvalidArgumentError\<close> is TensorFlow's error for an index out of bounds.
\<close>

datatype error =
    KeyError string
  | ValueError string
  | NameError string
  | InvalidArgumentError string
  | AttributeError string

fun bindE :: "error + 'a \<Rightarrow> ('a \<Rightarrow> error + 'b) \<Rightarrow> error + 'b" where
  "bindE (Inl e) f = Inl e"
| "bindE (Inr x) f = f x"

subsection \<open>Tensors and the TensorFlow operations the module calls\<close>

datatype 'a tensor = Tensor (shape: "nat list") (vals: "'a list")

text \<open>A well-formed tensor holds as many entries as its shape says.\<close>

definition wf_tensor :: "'a tensor \<Rightarrow> bool" where
  "wf_tensor t = (length (vals t) = prod_list (shape t))"

text \<open>
  The slices of a tensor along its first axis, each as the list of its entries: for a
  tensor of shape \<open>[N, C]\<close> these are its \<open>N\<close> rows.
\<close>

definition slice :: "'a tensor \<Rightarrow> nat \<Rightarrow> 'a list" where
  "slice t i = (let sz = prod_list (tl (shape t)) in take sz (drop (i * sz) (vals t)))"

definition rows_of :: "'a tensor \<Rightarrow> 'a list list" where
  "rows_of t = (case shape t of [] \<Rightarrow> [] | n # s \<Rightarrow> map (slice t) [0..<n])"

text \<open>
  An integer index into an axis of size \<open>n\<close>: a negative index counts from the end, as in
  Python; TensorFlow rejects an index outside \<open>[-n, n)\<close>.
\<close>

definition norm_index :: "nat \<Rightarrow> int \<Rightarrow> error + nat" where
  "norm_index n i =
     (let j = (if i < 0 then i + int n else i)
      in if 0 \<le> j \<and> j < int n then Inr (nat j)
         else Inl (InvalidArgumentError ''slice index out of bounds''))"

text \<open>\<open>t[index, ...]\<close>\<close>

definition getitem0 :: "'a tensor \<Rightarrow> int \<Rightarrow> error + 'a tensor" where
  "getitem0 t index =
     (case shape t of
        [] \<Rightarrow> Inl (InvalidArgumentError ''index into a scalar'')
      | n # s \<Rightarrow> bindE (norm_index n index) (\<lambda>j. Inr (Tensor s (slice t j))))"

text \<open>\<open>t[..., k]\<close>\<close>

definition getitem_last :: "'a tensor \<Rightarrow> int \<Rightarrow> error + 'a tensor" where
  "getitem_last t k =
     (if shape t = [] then Inl (InvalidArgumentError ''index into a scalar'')
      else let c = last (shape t); s = butlast (shape t)
           in bindE (norm_index c k)
                (\<lambda>j. Inr (Tensor s (map (\<lambda>r. vals t ! (r * c + j)) [0..<prod_list s]))))"

text \<open>\<open>t[:, axis]\<close>\<close>

definition getitem_col :: "'a tensor \<Rightarrow> int \<Rightarrow> error + 'a tensor" where
  "getitem_col t axis =
     (case shape t of
        n # c # s \<Rightarrow>
          bindE (norm_index c axis)
            (\<lambda>j. let sz = prod_list s
                 in Inr (Tensor (n # s)
                      (concat (map (\<lambda>i. take sz (drop ((i * c + j) * sz) (vals t))) [0..<n]))))
      | _ \<Rightarrow> Inl (InvalidArgumentError ''too many indices''))"

text \<open>Elementwise operations; the module applies the binary ones to tensors of one shape.\<close>

definition tmap :: "('a \<Rightarrow> 'b) \<Rightarrow> 'a tensor \<Rightarrow> 'b tensor" where
  "tmap f t = Tensor (shape t) (map f (vals t))"

definition tmap2 :: "('a \<Rightarrow> 'b \<Rightarrow> 'c) \<Rightarrow> 'a tensor \<Rightarrow> 'b tensor \<Rightarrow> 'c tensor" where
  "tmap2 f a b = Tensor (shape a) (map (\<lambda>(x, y). f x y) (zip (vals a) (vals b)))"

text \<open>
  \<open>tf.where(cond)\<close>: the coordinates of the true entries, in row-major order, as a tensor
  of shape \<open>[K, rank cond]\<close>.
\<close>

fun unravel :: "nat list \<Rightarrow> nat \<Rightarrow> nat list" where
  "unravel [] j = []"
| "unravel (d # s) j = (j div prod_list s) # unravel s (j mod prod_list s)"

definition tf_where :: "bool tensor \<Rightarrow> nat tensor" where
  "tf_where cond =
     (let js = filter (\<lambda>j. vals cond ! j) [0..<length (vals cond)]
      in Tensor [length js, length (shape cond)] (concat (map (unravel (shape cond)) js)))"

text \<open>
  \<open>tf.gather_nd(params, indices)\<close> for an index tensor of shape \<open>[K, M]\<close> (what
  \<open>tf.where\<close> returns): row \<open>r\<close> of the result is the slice of \<open>params\<close> at the
  coordinates in row \<open>r\<close> of \<open>indices\<close>.
\<close>

fun ravel :: "nat list \<Rightarrow> nat list \<Rightarrow> nat" where
  "ravel (d # s) (i # is) = i * prod_list s + ravel s is"
| "ravel s is = 0"

definition tf_gather_nd :: "'a tensor \<Rightarrow> nat tensor \<Rightarrow> error + 'a tensor" where
  "tf_gather_nd params indices =
     (case shape indices of
        [k, m] \<Rightarrow>
          if length (shape params) < m
          then Inl (InvalidArgumentError ''index depth exceeds the rank of params'')
          else let outer = take m (shape params);
                   inner = drop m (shape params);
                   sz = prod_list inner;
                   coords = map (\<lambda>r. take m (drop (r * m) (vals indices))) [0..<k]
               in if list_all (\<lambda>idx. list_all2 (<) idx outer) coords
                  then Inr (Tensor (k # inner)
                         (concat (map (\<lambda>idx. take sz (drop (ravel outer idx * sz) (vals params)))
                            coords)))
                  else Inl (InvalidArgumentError ''indices out of bounds'')
      | _ \<Rightarrow> Inl (InvalidArgumentError ''indices of another rank''))"

text \<open>
  \<open>tf.gather(params, idx, axis=0)\<close>: the slices of \<open>params\<close> along its first axis at the
  positions \<open>idx\<close>.
\<close>

definition tf_gather0 :: "'a tensor \<Rightarrow> nat tensor \<Rightarrow> error + 'a tensor" where
  "tf_gather0 params idx =
     (case shape params of
        [] \<Rightarrow> Inl (InvalidArgumentError ''gather from a scalar'')
      | n # s \<Rightarrow>
          if list_all (\<lambda>i. i < n) (vals idx)
          then Inr (Tensor (shape idx @ s) (concat (map (slice params) (vals idx))))
          else Inl (InvalidArgumentError ''indices out of bounds''))"

text \<open>
  \<open>tf.math.top_k(input, k)\<close>, its second result: along the last axis, the positions of the
  \<open>k\<close> largest entries, largest first; of two equal entries the one at the lower position
  comes first.
\<close>

definition top_k_row :: "real list \<Rightarrow> nat \<Rightarrow> nat list" where
  "top_k_row xs k = take k (sort_key (\<lambda>i. - (xs ! i)) [0..<length xs])"

definition top_k_indices :: "real tensor \<Rightarrow> nat \<Rightarrow> error + nat tensor" where
  "top_k_indices t k =
     (if shape t = [] then Inl (InvalidArgumentError ''input must be at least rank 1'')
      else let n = last (shape t); s = butlast (shape t)
           in if n < k then Inl (InvalidArgumentError ''input must have at least k columns'')
              else Inr (Tensor (s @ [k])
                     (concat (map (\<lambda>r. top_k_row (take n (drop (r * n) (vals t))) k)
                        [0..<prod_list s]))))"

text \<open>\<open>tf.shape(t)[0]\<close>\<close>

definition tf_shape0 :: "'a tensor \<Rightarrow> error + nat" where
  "tf_shape0 t =
     (case shape t of
        [] \<Rightarrow> Inl (InvalidArgumentError ''slice index out of bounds'')
      | n # s \<Rightarrow> Inr n)"

text \<open>
  \<open>tf.ragged.stack(box_sets).to_tensor(default_value)\<close> for a list of tensors of one rank.
  Stacking tensors of rank 1 gives a ragged tensor whose rows are the tensors; stacking
  tensors of rank 2 or more makes their first two axes ragged and needs the remaining
  axes to agree. \<open>to_tensor\<close> pads every ragged axis at its end, up to the longest row
  present. Stacking scalars gives a dense tensor, which has no \<open>to_tensor\<close>.
\<close>

definition pad_to :: "nat \<Rightarrow> 'a \<Rightarrow> 'a list \<Rightarrow> 'a list" where
  "pad_to n d xs = xs @ replicate (n - length xs) d"

definition ragged_stack_to_tensor :: "'a tensor list \<Rightarrow> 'a \<Rightarrow> error + 'a tensor" where
  "ragged_stack_to_tensor box_sets default_value =
     (case box_sets of
        [] \<Rightarrow> Inl (ValueError ''no tensors to stack'')
      | t0 # _ \<Rightarrow>
          if \<not> list_all (\<lambda>t. length (shape t) = length (shape t0)) box_sets
          then Inl (ValueError ''the tensors differ in rank'')
          else
            (case shape t0 of
               [] \<Rightarrow> Inl (AttributeError ''to_tensor'')
             | [_] \<Rightarrow>
                 let m = fold max (map (\<lambda>t. hd (shape t)) box_sets) 0
                 in Inr (Tensor [length box_sets, m]
                      (concat (map (\<lambda>t. pad_to m default_value (vals t)) box_sets)))
             | _ # _ # inner \<Rightarrow>
                 if \<not> list_all (\<lambda>t. drop 2 (shape t) = inner) box_sets
                 then Inl (InvalidArgumentError ''the inner dimensions differ'')
                 else
                   let sz = prod_list inner;
                       m = fold max (map (\<lambda>t. hd (shape t)) box_sets) 0;
                       c = fold max
                             (map (\<lambda>t. shape t ! 1) (filter (\<lambda>t. 0 < hd (shape t)) box_sets)) 0
                   in Inr (Tensor (length box_sets # m # c # inner)
                        (concat (map (\<lambda>t. pad_to (m * c * sz) default_value
                             (concat (map (\<lambda>i. pad_to (c * sz) default_value (slice t i))
                                [0..<hd (shape t)])))
                           box_sets)))))"

subsection \<open>Dictionaries of tensors and module-level names\<close>

text \<open>
  A bounding-box dictionary maps the keys \<open>"boxes"\<close>, \<open>"classes"\<close> and \<open>"confidence"\<close> to
  tensors; a key may be missing. \<open>d[k]\<close> raises \<open>KeyError\<close> on a missing key.
\<close>

type_synonym bounding_boxes = "string \<Rightarrow> real tensor option"

definition getkey :: "bounding_boxes \<Rightarrow> string \<Rightarrow> error + real tensor" where
  "getkey d k = (case d k of None \<Rightarrow> Inl (KeyError k) | Some v \<Rightarrow> Inr v)"

text \<open>
  The tensors bound to names at the module's top level. The module binds only its two
  imports and its eight functions, so there are none. Reading a name that is neither a
  local variable nor bound here raises \<open>NameError\<close>.
\<close>

definition module_globals :: "string \<Rightarrow> real tensor option" where
  "module_globals = Map.empty"

definition getname :: "(string \<Rightarrow> real tensor option) \<Rightarrow> string \<Rightarrow> error + real tensor" where
  "getname env n = (case env n of None \<Rightarrow> Inl (NameError n) | Some v \<Rightarrow> Inr v)"

subsection \<open>The constants of \<open>keras_cv.bounding_box.XYXY\<close>\<close>

text \<open>
  Modelled from the spec: the class \<open>bounding_box.XYXY\<close> is not among the source files;
  the spec gives a box in corner format as \<open>(left, top, right, bottom)\<close>, so the four
  constants are the positions 0 to 3 in that order.
\<close>

definition LEFT :: int where "LEFT = 0"
definition TOP :: int where "TOP = 1"
definition RIGHT :: int where "RIGHT = 2"
definition BOTTOM :: int where "BOTTOM = 3"

subsection \<open>The functions of the module\<close>

definition bounding_box_area :: "real tensor \<Rightarrow> error + real tensor" where
  "bounding_box_area boxes =
     bindE (getitem_last boxes RIGHT) (\<lambda>r.
     bindE (getitem_last boxes LEFT) (\<lambda>l.
     let w = tmap2 (-) r l in
     bindE (getitem_last boxes BOTTOM) (\<lambda>b.
     bindE (getitem_last boxes TOP) (\<lambda>t.
     let h = tmap2 (-) b t in
     Inr (tmap2 (*) w h)))))"

text \<open>The local variable \<open>inds\<close> of \<open>filter_boxes_by_area_range\<close>.\<close>

definition area_range_inds :: "real tensor \<Rightarrow> real \<Rightarrow> real \<Rightarrow> error + nat tensor" where
  "area_range_inds boxes min_area max_area =
     bindE (bounding_box_area boxes) (\<lambda>areas.
     Inr (tf_where (tmap2 (\<and>) (tmap (\<lambda>a. a \<ge> min_area) areas)
                               (tmap (\<lambda>a. a < max_area) areas))))"

definition filter_boxes_by_area_range :: "real tensor \<Rightarrow> real \<Rightarrow> real \<Rightarrow> error + real tensor" where
  "filter_boxes_by_area_range boxes min_area max_area =
     bindE (area_range_inds boxes min_area max_area) (\<lambda>inds. tf_gather_nd boxes inds)"

text \<open>\<open>filter_boxes(boxes, value, axis)\<close>; the Python's default for \<open>axis\<close> is 4.\<close>

definition filter_boxes :: "real tensor \<Rightarrow> real \<Rightarrow> int \<Rightarrow> error + real tensor" where
  "filter_boxes boxes v axis =
     bindE (getitem_col boxes axis) (\<lambda>col.
     tf_gather_nd boxes (tf_where (tmap (\<lambda>x. x = v) col)))"

definition to_sentinel_padded_bounding_box_tensor :: "real tensor list \<Rightarrow> error + real tensor" where
  "to_sentinel_padded_bounding_box_tensor box_sets = ragged_stack_to_tensor box_sets (- 1)"

definition get_boxes_for_image :: "bounding_boxes \<Rightarrow> int \<Rightarrow> error + bounding_boxes" where
  "get_boxes_for_image bounding_boxes index =
     bindE (getkey bounding_boxes ''boxes'') (\<lambda>boxes.
     bindE (getkey bounding_boxes ''classes'') (\<lambda>classes.
     bindE (getkey bounding_boxes ''confidence'') (\<lambda>confidence.
     bindE (getitem0 boxes index) (\<lambda>b.
     bindE (getitem0 classes index) (\<lambda>c.
     bindE (getitem0 confidence index) (\<lambda>f.
     Inr [''boxes'' \<mapsto> b, ''classes'' \<mapsto> c, ''confidence'' \<mapsto> f]))))))"

definition filter_out_sentinels :: "bounding_boxes \<Rightarrow> error + bounding_boxes" where
  "filter_out_sentinels bounding_boxes =
     bindE (getkey bounding_boxes ''boxes'') (\<lambda>boxes.
     bindE (getkey bounding_boxes ''classes'') (\<lambda>classes.
     bindE (getkey bounding_boxes ''confidence'') (\<lambda>confidence.
     let indices = tf_where (tmap (\<lambda>c. c \<noteq> - 1) classes) in
     bindE (tf_gather_nd boxes indices) (\<lambda>b.
     bindE (tf_gather_nd classes indices) (\<lambda>c.
     bindE (tf_gather_nd confidence indices) (\<lambda>f.
     Inr [''boxes'' \<mapsto> b, ''classes'' \<mapsto> c, ''confidence'' \<mapsto> f]))))))"

text \<open>
  \<open>order_by_confidence\<close>: after its two checks the function reads the name
  \<open>preds_for_img\<close>, which is neither one of its local variables nor bound by the module.
\<close>

definition order_by_confidence :: "bounding_boxes \<Rightarrow> error + bounding_boxes" where
  "order_by_confidence bounding_boxes =
     (if bounding_boxes ''confidence'' = None
      then Inl (ValueError ''Expected bounding_boxes to contain key confidence'')
      else
        bindE (getkey bounding_boxes ''boxes'') (\<lambda>boxes.
        bindE (getkey bounding_boxes ''classes'') (\<lambda>classes.
        bindE (getkey bounding_boxes ''confidence'') (\<lambda>confidence.
        if length (shape boxes) \<noteq> 2
        then Inl (ValueError ''should only accept a single batch of bounding boxes'')
        else
          bindE (getname module_globals ''preds_for_img'') (\<lambda>preds_for_img.
          bindE (tf_shape0 preds_for_img) (\<lambda>k.
          bindE (top_k_indices confidence k) (\<lambda>idx.
          bindE (tf_gather0 boxes idx) (\<lambda>b.
          bindE (tf_gather0 classes idx) (\<lambda>c.
          bindE (tf_gather0 confidence idx) (\<lambda>f.
          Inr [''boxes'' \<mapsto> b, ''classes'' \<mapsto> c, ''confidence'' \<mapsto> f]))))))))))"

text \<open>
  \<open>match_boxes\<close>. \<open>ious[gt_idx, detection_idx]\<close> is the entry of a rank-2 lookup table;
  the two \<open>TensorArray\<close>s are lists of integers, \<open>write\<close> is list update. The inner loop
  over \<open>gt_idx\<close> carries the pair \<open>(iou, match_index)\<close>, the outer loop over
  \<open>detection_idx\<close> the pair \<open>(gt_matches, pred_matches)\<close>.
\<close>

definition getitem2 :: "'a tensor \<Rightarrow> nat \<Rightarrow> nat \<Rightarrow> 'a" where
  "getitem2 t i j = vals t ! (i * (shape t ! 1) + j)"

definition scan_gt :: "real tensor \<Rightarrow> int list \<Rightarrow> nat \<Rightarrow> nat \<Rightarrow> real \<times> int \<Rightarrow> real \<times> int" where
  "scan_gt ious gt_matches detection_idx gt_idx st =
     (case st of (iou, match_index) \<Rightarrow>
        if gt_matches ! gt_idx > - 1 then (iou, match_index)
        else if getitem2 ious gt_idx detection_idx < iou then (iou, match_index)
        else (getitem2 ious gt_idx detection_idx, int gt_idx))"

definition match_detection ::
  "real tensor \<Rightarrow> real \<Rightarrow> nat \<Rightarrow> nat \<Rightarrow> int list \<times> int list \<Rightarrow> int list \<times> int list" where
  "match_detection ious threshold num_true detection_idx st =
     (case st of (gt_matches, pred_matches) \<Rightarrow>
        (case fold (scan_gt ious gt_matches detection_idx) [0..<num_true]
                (min threshold (1 - 1 / 10 ^ 10), - 1) of
           (iou, match_index) \<Rightarrow>
             let pred_matches' = pred_matches[detection_idx := match_index]
             in if match_index = - 1 then (gt_matches, pred_matches')
                else (gt_matches[nat match_index := int detection_idx], pred_matches')))"

definition match_boxes :: "real tensor \<Rightarrow> real \<Rightarrow> error + int tensor" where
  "match_boxes ious threshold =
     (case shape ious of
        [num_true, num_pred] \<Rightarrow>
          let gt_matches = fold (\<lambda>i a. a[i := - 1]) [0..<num_true] (replicate num_true 0);
              pred_matches = fold (\<lambda>i a. a[i := - 1]) [0..<num_pred] (replicate num_pred 0)
          in Inr (Tensor [num_pred]
               (snd (fold (match_detection ious threshold num_true) [0..<num_pred]
                       (gt_matches, pred_matches))))
      | _ \<Rightarrow> Inl (InvalidArgumentError ''ious is not a rank-2 lookup table''))"

section \<open>Properties\<close>

subsection \<open>Indexing and dictionary access\<close>

lemma getitem0_index:
  assumes "shape t = n # s"
  shows "getitem0 t index =
     (if - int n \<le> index \<and> index < int n
      then Inr (Tensor s (slice t (nat (if index < 0 then index + int n else index))))
      else Inl (InvalidArgumentError ''slice index out of bounds''))"
  using assms by (auto simp: getitem0_def norm_index_def Let_def)

text \<open>
  Claim C9. \<open>filter_out_sentinels\<close> and \<open>get_boxes_for_image\<close> read the key
  \<open>"confidence"\<close> whatever the input: on a dictionary without it both raise \<open>KeyError\<close>
  (for the first of the three keys that is missing, which is \<open>"confidence"\<close> when boxes
  and classes are there) and return nothing.
\<close>

theorem missing_confidence_raises_KeyError:
  assumes "bounding_boxes ''confidence'' = None"
  shows "filter_out_sentinels bounding_boxes =
           Inl (KeyError (if bounding_boxes ''boxes'' = None then ''boxes''
                          else if bounding_boxes ''classes'' = None then ''classes''
                          else ''confidence''))
       \<and> get_boxes_for_image bounding_boxes index =
           Inl (KeyError (if bounding_boxes ''boxes'' = None then ''boxes''
                          else if bounding_boxes ''classes'' = None then ''classes''
                          else ''confidence''))"
  using assms
  by (auto simp: filter_out_sentinels_def get_boxes_for_image_def getkey_def
           split: option.splits)

text \<open>A ground-truth set of two boxes without confidence, alone and as a batch of one image.\<close>

theorem missing_confidence_raises_KeyError_witness:
  "filter_out_sentinels
     [''boxes'' \<mapsto> Tensor [2, 4] [0, 0, 1, 1, 0, 0, 2, 2], ''classes'' \<mapsto> Tensor [2] [1, - 1]]
     = Inl (KeyError ''confidence'')
   \<and> get_boxes_for_image
     [''boxes'' \<mapsto> Tensor [1, 2, 4] [0, 0, 1, 1, 0, 0, 2, 2], ''classes'' \<mapsto> Tensor [1, 2] [1, - 1]] 0
     = Inl (KeyError ''confidence'')"
  using missing_confidence_raises_KeyError
          [of "[''boxes'' \<mapsto> Tensor [2, 4] [0, 0, 1, 1, 0, 0, 2, 2], ''classes'' \<mapsto> Tensor [2] [1, - 1]]"]
        missing_confidence_raises_KeyError
          [of "[''boxes'' \<mapsto> Tensor [1, 2, 4] [0, 0, 1, 1, 0, 0, 2, 2], ''classes'' \<mapsto> Tensor [1, 2] [1, - 1]]" 0]
  by simp

text \<open>
  Claim C6, as the code has it. For a batched dictionary holding boxes, classes and
  confidence with \<open>n\<close> images each, \<open>get_boxes_for_image\<close> raises TensorFlow's
  out-of-bounds error exactly when the index is outside \<open>[-n, n)\<close>. For an index in
  \<open>[0, n)\<close> it returns the whole slice at that position of each of the three tensors,
  padding rows included; an index in \<open>[-n, 0)\<close> counts from the end and returns the
  slices at position \<open>index + n\<close>.
\<close>

theorem get_boxes_for_image_index:
  assumes "bounding_boxes ''boxes'' = Some b"
      and "bounding_boxes ''classes'' = Some c"
      and "bounding_boxes ''confidence'' = Some f"
      and "shape b = n # sb" and "shape c = n # sc" and "shape f = n # sf"
  shows "get_boxes_for_image bounding_boxes index =
     (if - int n \<le> index \<and> index < int n
      then let j = nat (if index < 0 then index + int n else index)
           in Inr [''boxes'' \<mapsto> Tensor sb (slice b j),
                   ''classes'' \<mapsto> Tensor sc (slice c j),
                   ''confidence'' \<mapsto> Tensor sf (slice f j)]
      else Inl (InvalidArgumentError ''slice index out of bounds''))"
  using assms
  by (simp add: get_boxes_for_image_def getkey_def getitem0_index Let_def)

text \<open>
  A batch of two images of one box each: index 0 gives the first image, the indices 2
  and -3 are out of bounds.
\<close>

theorem get_boxes_for_image_index_witness:
  "get_boxes_for_image
     [''boxes'' \<mapsto> Tensor [2, 1, 4] [0, 0, 1, 1, 0, 0, 2, 2],
      ''classes'' \<mapsto> Tensor [2, 1] [1, 2],
      ''confidence'' \<mapsto> Tensor [2, 1] [5 / 10, 6 / 10]] 0
   = Inr [''boxes'' \<mapsto> Tensor [1, 4] [0, 0, 1, 1],
          ''classes'' \<mapsto> Tensor [1] [1],
          ''confidence'' \<mapsto> Tensor [1] [5 / 10]]
   \<and> get_boxes_for_image
     [''boxes'' \<mapsto> Tensor [2, 1, 4] [0, 0, 1, 1, 0, 0, 2, 2],
      ''classes'' \<mapsto> Tensor [2, 1] [1, 2],
      ''confidence'' \<mapsto> Tensor [2, 1] [5 / 10, 6 / 10]] 2
   = Inl (InvalidArgumentError ''slice index out of bounds'')
   \<and> get_boxes_for_image
     [''boxes'' \<mapsto> Tensor [2, 1, 4] [0, 0, 1, 1, 0, 0, 2, 2],
      ''classes'' \<mapsto> Tensor [2, 1] [1, 2],
      ''confidence'' \<mapsto> Tensor [2, 1] [5 / 10, 6 / 10]] (- 3)
   = Inl (InvalidArgumentError ''slice index out of bounds'')"
  using get_boxes_for_image_index
          [of "[''boxes'' \<mapsto> Tensor [2, 1, 4] [0, 0, 1, 1, 0, 0, 2, 2],
                ''classes'' \<mapsto> Tensor [2, 1] [1, 2],
                ''confidence'' \<mapsto> Tensor [2, 1] [5 / 10, 6 / 10]]"
              "Tensor [2, 1, 4] [0, 0, 1, 1, 0, 0, 2, 2]"
              "Tensor [2, 1] [1, 2]" "Tensor [2, 1] [5 / 10, 6 / 10]" 2 "[1, 4]" "[1]" "[1]"]
  by (simp add: slice_def)

text \<open>
  The claim as the spec words it fails at the index -1, which is outside \<open>[0, 2)\<close>: the
  call does not raise, it returns the last image.
\<close>

theorem get_boxes_for_image_negative_index:
  "get_boxes_for_image
     [''boxes'' \<mapsto> Tensor [2, 1, 4] [0, 0, 1, 1, 0, 0, 2, 2],
      ''classes'' \<mapsto> Tensor [2, 1] [1, 2],
      ''confidence'' \<mapsto> Tensor [2, 1] [5 / 10, 6 / 10]] (- 1)
   = Inr [''boxes'' \<mapsto> Tensor [1, 4] [0, 0, 2, 2],
          ''classes'' \<mapsto> Tensor [1] [2],
          ''confidence'' \<mapsto> Tensor [1] [6 / 10]]"
  by (simp add: get_boxes_for_image_def getkey_def getitem0_def norm_index_def slice_def)

subsection \<open>Ordering by confidence\<close>

lemma order_by_confidence_never_returns:
  "order_by_confidence bounding_boxes \<noteq> Inr r"
  by (auto simp: order_by_confidence_def getkey_def getname_def module_globals_def
           split: option.splits)

text \<open>
  Claim C5 asks \<open>order_by_confidence\<close> to return the rows sorted by falling confidence.
  On a single image of two boxes with confidences 0.3 and 0.9 the function returns
  nothing: it raises \<open>NameError\<close> when it reads \<open>preds_for_img\<close>.
\<close>

theorem order_by_confidence_raises_NameError:
  "order_by_confidence
     [''boxes'' \<mapsto> Tensor [2, 4] [0, 0, 1, 1, 0, 0, 2, 2],
      ''classes'' \<mapsto> Tensor [2] [1, 2],
      ''confidence'' \<mapsto> Tensor [2] [3 / 10, 9 / 10]]
   = Inl (NameError ''preds_for_img'')"
  by (simp add: order_by_confidence_def getkey_def getname_def module_globals_def)

subsection \<open>Tensors of rank 1 and 2: rows, \<open>tf.where\<close> and \<open>tf.gather_nd\<close>\<close>

lemma getitem_last_rank2:
  assumes "shape t = [n, c]" "0 \<le> k" "k < int c"
  shows "getitem_last t k = Inr (Tensor [n] (map (\<lambda>r. vals t ! (r * c + nat k)) [0..<n]))"
  using assms by (simp add: getitem_last_def norm_index_def)

lemma tmap2_upt:
  "tmap2 f (Tensor s (map g [0..<n])) (Tensor s' (map h [0..<n])) =
     Tensor s (map (\<lambda>r. f (g r) (h r)) [0..<n])"
  unfolding tmap2_def by (simp, intro nth_equalityI) simp_all

lemma unravel_rank1: "unravel [n] = (\<lambda>j. [j])"
  by (rule ext) simp

lemma slice_shape:
  assumes "shape t = n # s"
  shows "slice t = (\<lambda>i. take (prod_list s) (drop (i * prod_list s) (vals t)))"
  using assms by (intro ext) (simp add: slice_def Let_def)

lemma bounding_box_area_rank2:
  assumes "shape boxes = [n, c]" "4 \<le> c"
  shows "bounding_box_area boxes =
     Inr (Tensor [n] (map (\<lambda>r. (vals boxes ! (r * c + 2) - vals boxes ! (r * c))
                               * (vals boxes ! (r * c + 3) - vals boxes ! (r * c + 1))) [0..<n]))"
  using assms
  by (simp add: bounding_box_area_def getitem_last_rank2 LEFT_def TOP_def RIGHT_def BOTTOM_def
        tmap2_upt)

lemma tf_where_rank1:
  "tf_where (Tensor [n] (map P [0..<n])) =
     Tensor [length (filter P [0..<n]), 1] (filter P [0..<n])"
proof -
  have "filter (\<lambda>j. map P [0..<n] ! j) [0..<n] = filter P [0..<n]"
    by (rule filter_cong) simp_all
  then show ?thesis by (simp add: tf_where_def Let_def unravel_rank1)
qed

lemma coords_rank1: "map (\<lambda>r. take (Suc 0) (drop r js)) [0..<length js] = map (\<lambda>j. [j]) js"
  by (rule nth_equalityI) (simp_all add: take_Suc_conv_app_nth hd_drop_conv_nth take_Suc)

lemma tf_gather_nd_rows:
  assumes "shape params = n # s"
  shows "tf_gather_nd params (Tensor [length js, 1] js) =
     (if list_all (\<lambda>j. j < n) js
      then Inr (Tensor (length js # s) (concat (map (slice params) js)))
      else Inl (InvalidArgumentError ''indices out of bounds''))"
  using assms
  by (simp add: tf_gather_nd_def coords_rank1 list_all_iff slice_shape comp_def Let_def)

lemma length_slice:
  assumes "shape t = n # s" "wf_tensor t" "i < n"
  shows "length (slice t i) = prod_list s"
proof -
  have "Suc i * prod_list s \<le> n * prod_list s"
    using assms(3) by (intro mult_le_mono1) simp
  then show ?thesis using assms by (simp add: slice_def wf_tensor_def Let_def)
qed

lemma take_drop_concat:
  assumes "\<forall>x \<in> set xss. length x = c" "i < length xss"
  shows "take c (drop (i * c) (concat xss)) = xss ! i"
  using assms
proof (induction xss arbitrary: i)
  case Nil
  then show ?case by simp
next
  case (Cons x xss)
  show ?case
  proof (cases i)
    case 0
    with Cons.prems show ?thesis by simp
  next
    case (Suc k)
    with Cons show ?thesis by simp
  qed
qed

lemma rows_of_concat:
  assumes "\<forall>x \<in> set xss. length x = prod_list s"
  shows "rows_of (Tensor (length xss # s) (concat xss)) = xss"
  using assms
  by (intro nth_equalityI) (simp_all add: rows_of_def slice_def take_drop_concat Let_def)

lemma rows_of_nth:
  assumes "shape t = n # s" "i < n"
  shows "rows_of t ! i = slice t i"
  using assms by (simp add: rows_of_def)

lemma slice_nth:
  assumes "shape t = [n, c]" "wf_tensor t" "i < n" "j < c"
  shows "slice t i ! j = vals t ! (i * c + j)"
proof -
  have "Suc i * c \<le> n * c"
    using assms(3) by (intro mult_le_mono1) simp
  then have "i * c + j < length (vals t)" using assms by (simp add: wf_tensor_def)
  then show ?thesis using assms by (simp add: slice_def Let_def)
qed

lemma gathered_rows:
  assumes "shape t = n # s" "wf_tensor t" "\<forall>j \<in> set js. j < n"
  shows "tf_gather_nd t (Tensor [length js, 1] js)
           = Inr (Tensor (length js # s) (concat (map (slice t) js)))"
    and "rows_of (Tensor (length js # s) (concat (map (slice t) js))) = map (\<lambda>i. rows_of t ! i) js"
proof -
  show "tf_gather_nd t (Tensor [length js, 1] js)
           = Inr (Tensor (length js # s) (concat (map (slice t) js)))"
    using assms tf_gather_nd_rows[of t n s js] by (simp add: list_all_iff)
  have "\<forall>x \<in> set (map (slice t) js). length x = prod_list s"
    using assms by (auto simp: length_slice)
  from rows_of_concat[OF this]
  show "rows_of (Tensor (length js # s) (concat (map (slice t) js))) = map (\<lambda>i. rows_of t ! i) js"
    using assms by (simp add: rows_of_nth cong: map_cong)
qed

lemma concat_chunks: "concat (map (\<lambda>i. take k (drop (i * k) xs)) [0..<n]) = take (n * k) xs"
proof (induction n)
  case 0
  then show ?case by simp
next
  case (Suc n)
  have "take (Suc n * k) xs = take (n * k + k) xs"
    by (simp add: add.commute)
  also have "\<dots> = take (n * k) xs @ take k (drop (n * k) xs)"
    by (rule take_add)
  finally show ?case using Suc by simp
qed

lemma concat_slices:
  assumes "shape t = n # s" "wf_tensor t"
  shows "concat (map (slice t) [0..<n]) = vals t"
  using assms by (simp add: slice_shape concat_chunks wf_tensor_def)

lemma tf_where_rank1_all:
  assumes "\<forall>x \<in> set xs. P x"
  shows "tf_where (tmap P (Tensor [n] xs)) = Tensor [length xs, 1] [0..<length xs]"
proof -
  have "filter (\<lambda>j. map P xs ! j) [0..<length xs] = [0..<length xs]"
    using assms by (simp add: filter_id_conv)
  then show ?thesis
    by (simp add: tf_where_def tmap_def Let_def unravel_rank1)
qed

lemma gather_all_rows:
  assumes "shape t = n # s" "wf_tensor t"
  shows "tf_gather_nd t (Tensor [n, 1] [0..<n]) = Inr t"
proof -
  have "\<forall>j \<in> set [0..<n]. j < n" by simp
  from gathered_rows(1)[OF assms this]
  have "tf_gather_nd t (Tensor [n, 1] [0..<n]) = Inr (Tensor (n # s) (vals t))"
    using assms by (simp add: concat_slices)
  moreover have "Tensor (n # s) (vals t) = t"
    using assms(1) by (cases t) simp
  ultimately show ?thesis by simp
qed

lemma pad_to_full: "length xs = n \<Longrightarrow> pad_to n d xs = xs"
  by (simp add: pad_to_def)

lemma stack_single_rank1:
  assumes "shape t = [n]" "wf_tensor t"
  shows "ragged_stack_to_tensor [t] d = Inr (Tensor [1, n] (vals t))"
  using assms by (simp add: ragged_stack_to_tensor_def pad_to_full wf_tensor_def)

lemma stack_single_rank2:
  assumes "shape t = [n, c]" "wf_tensor t"
  shows "ragged_stack_to_tensor [t] d = Inr (Tensor [1, n, if 0 < n then c else 0] (vals t))"
proof (cases "0 < n")
  case True
  have "pad_to c d (slice t i) = slice t i" if "i < n" for i
    using assms that by (simp add: pad_to_full length_slice)
  then have "map (\<lambda>i. pad_to c d (slice t i)) [0..<n] = map (slice t) [0..<n]"
    by (intro map_cong[OF refl]) simp
  with concat_slices[OF assms]
  have "concat (map (\<lambda>i. pad_to c d (slice t i)) [0..<n]) = vals t"
    by (simp only:)
  then show ?thesis
    using assms True by (simp add: ragged_stack_to_tensor_def pad_to_full wf_tensor_def)
next
  case False
  then show ?thesis
    using assms by (simp add: ragged_stack_to_tensor_def pad_to_def wf_tensor_def)
qed

lemma getitem0_single:
  assumes "length xs = prod_list s"
  shows "getitem0 (Tensor (1 # s) xs) 0 = Inr (Tensor s xs)"
  using assms by (simp add: getitem0_def norm_index_def slice_def)

subsection \<open>Filtering by area range\<close>

lemma area_range_inds_rank2:
  assumes "shape boxes = [n, c]" "4 \<le> c" "bounding_box_area boxes = Inr areas"
  shows "area_range_inds boxes lo hi =
     Inr (Tensor [length (filter (\<lambda>i. lo \<le> vals areas ! i \<and> vals areas ! i < hi) [0..<n]), 1]
            (filter (\<lambda>i. lo \<le> vals areas ! i \<and> vals areas ! i < hi) [0..<n]))"
proof -
  let ?A = "\<lambda>r. (vals boxes ! (r * c + 2) - vals boxes ! (r * c))
                * (vals boxes ! (r * c + 3) - vals boxes ! (r * c + 1))"
  have areas: "areas = Tensor [n] (map ?A [0..<n])"
    using assms bounding_box_area_rank2[of boxes n c] by simp
  have "filter (\<lambda>i. lo \<le> vals areas ! i \<and> vals areas ! i < hi) [0..<n]
      = filter (\<lambda>i. lo \<le> ?A i \<and> ?A i < hi) [0..<n]"
    by (rule filter_cong) (simp_all add: areas)
  moreover have "area_range_inds boxes lo hi =
     Inr (tf_where (Tensor [n] (map (\<lambda>i. lo \<le> ?A i \<and> ?A i < hi) [0..<n])))"
    using assms(3) by (simp add: area_range_inds_def areas tmap_def tmap2_upt comp_def)
  ultimately show ?thesis by (simp only: tf_where_rank1)
qed

lemma nth_filter_upt:
  "map (\<lambda>i. xs ! i) (filter (\<lambda>i. Q (xs ! i)) [0..<length xs]) = filter Q xs"
proof -
  have "filter Q xs = filter Q (map (\<lambda>i. xs ! i) [0..<length xs])"
    by (simp add: map_nth)
  also have "\<dots> = map (\<lambda>i. xs ! i) (filter (\<lambda>i. Q (xs ! i)) [0..<length xs])"
    by (simp add: filter_map comp_def)
  finally show ?thesis by simp
qed

lemma bounding_box_area_rows:
  assumes "shape boxes = [n, c]" "wf_tensor boxes" "4 \<le> c"
  shows "bounding_box_area boxes =
     Inr (Tensor [n] (map (\<lambda>i. (rows_of boxes ! i ! 2 - rows_of boxes ! i ! 0)
                               * (rows_of boxes ! i ! 3 - rows_of boxes ! i ! 1)) [0..<n]))"
proof -
  have "(rows_of boxes ! i ! 2 - rows_of boxes ! i ! 0)
          * (rows_of boxes ! i ! 3 - rows_of boxes ! i ! 1)
      = (vals boxes ! (i * c + 2) - vals boxes ! (i * c))
          * (vals boxes ! (i * c + 3) - vals boxes ! (i * c + 1))" if "i < n" for i
    using assms that
      slice_nth[OF assms(1,2) that, of 0] slice_nth[OF assms(1,2) that, of 1]
      slice_nth[OF assms(1,2) that, of 2] slice_nth[OF assms(1,2) that, of 3]
    by (simp add: rows_of_nth)
  then have "map (\<lambda>i. (rows_of boxes ! i ! 2 - rows_of boxes ! i ! 0)
                        * (rows_of boxes ! i ! 3 - rows_of boxes ! i ! 1)) [0..<n]
           = map (\<lambda>r. (vals boxes ! (r * c + 2) - vals boxes ! (r * c))
                        * (vals boxes ! (r * c + 3) - vals boxes ! (r * c + 1))) [0..<n]"
    by (intro map_cong[OF refl]) simp
  with bounding_box_area_rank2[OF assms(1,3)] show ?thesis by (simp only:)
qed

text \<open>
  Claim C7. For a box tensor of shape \<open>[n, c]\<close> with at least the four corner columns,
  the area that \<open>bounding_box_area\<close> gives row \<open>r\<close> is
  \<open>(r ! 2 - r ! 0) * (r ! 3 - r ! 1)\<close>, that is (right - left) times (bottom - top), and
  \<open>filter_boxes_by_area_range\<close> keeps exactly the rows whose area is at least
  \<open>min_area\<close> and below \<open>max_area\<close>, each once and in their order. For \<open>a < b < d\<close>
  the positions kept for \<open>[a, b)\<close> and for \<open>[b, d)\<close> are disjoint, and together they
  are the positions kept for \<open>[a, d)\<close>.
\<close>

theorem area_range_partition:
  assumes "shape boxes = [n, c]" and "wf_tensor boxes" and "4 \<le> c"
      and "a < b" and "b < d"
  shows "\<exists>areas iab ibd iad out.
     bounding_box_area boxes = Inr areas \<and>
     areas = Tensor [n] (map (\<lambda>i. (rows_of boxes ! i ! 2 - rows_of boxes ! i ! 0)
                                  * (rows_of boxes ! i ! 3 - rows_of boxes ! i ! 1)) [0..<n]) \<and>
     area_range_inds boxes a b = Inr iab \<and>
     area_range_inds boxes b d = Inr ibd \<and>
     area_range_inds boxes a d = Inr iad \<and>
     distinct (vals iab) \<and>
     set (vals iab) = {i. i < n \<and> a \<le> vals areas ! i \<and> vals areas ! i < b} \<and>
     set (vals iab) = {i. i < n \<and>
        a \<le> (rows_of boxes ! i ! 2 - rows_of boxes ! i ! 0)
              * (rows_of boxes ! i ! 3 - rows_of boxes ! i ! 1) \<and>
        (rows_of boxes ! i ! 2 - rows_of boxes ! i ! 0)
              * (rows_of boxes ! i ! 3 - rows_of boxes ! i ! 1) < b} \<and>
     filter_boxes_by_area_range boxes a b = Inr out \<and>
     rows_of out = map (\<lambda>i. rows_of boxes ! i) (vals iab) \<and>
     rows_of out = filter (\<lambda>r. a \<le> (r ! 2 - r ! 0) * (r ! 3 - r ! 1) \<and>
                                (r ! 2 - r ! 0) * (r ! 3 - r ! 1) < b) (rows_of boxes) \<and>
     set (vals iab) \<inter> set (vals ibd) = {} \<and>
     set (vals iab) \<union> set (vals ibd) = set (vals iad)"
proof -
  let ?A = "\<lambda>i. (rows_of boxes ! i ! 2 - rows_of boxes ! i ! 0)
                * (rows_of boxes ! i ! 3 - rows_of boxes ! i ! 1)"
  define areas where "areas = Tensor [n] (map ?A [0..<n])"
  have ar: "bounding_box_area boxes = Inr areas"
    unfolding areas_def by (rule bounding_box_area_rows[OF assms(1,2,3)])
  have area_nth: "vals areas ! i = ?A i" if "i < n" for i
    using that by (simp add: areas_def)
  let ?js = "\<lambda>lo hi. filter (\<lambda>i. lo \<le> vals areas ! i \<and> vals areas ! i < hi) [0..<n]"
  note inds = area_range_inds_rank2[OF assms(1,3) ar]
  have bound: "\<forall>j \<in> set (?js a b). j < n" by simp
  have out: "filter_boxes_by_area_range boxes a b
               = Inr (Tensor [length (?js a b), c] (concat (map (slice boxes) (?js a b))))"
    using gathered_rows(1)[OF assms(1,2) bound]
    by (simp add: filter_boxes_by_area_range_def inds)
  have rows: "rows_of (Tensor [length (?js a b), c] (concat (map (slice boxes) (?js a b))))
               = map (\<lambda>i. rows_of boxes ! i) (?js a b)"
    using gathered_rows(2)[OF assms(1,2) bound] .
  have disj: "set (?js a b) \<inter> set (?js b d) = {}" by auto
  have un: "set (?js a b) \<union> set (?js b d) = set (?js a d)"
    using assms(4,5) by auto
  have mem: "set (?js a b) = {i. i < n \<and> a \<le> vals areas ! i \<and> vals areas ! i < b}"
    by auto
  have mem': "set (?js a b) = {i. i < n \<and> a \<le> ?A i \<and> ?A i < b}"
    using area_nth by auto
  have len: "length (rows_of boxes) = n"
    using assms(1) by (simp add: rows_of_def)
  have "?js a b = filter (\<lambda>i. a \<le> ?A i \<and> ?A i < b) [0..<length (rows_of boxes)]"
    unfolding len by (rule filter_cong) (simp_all add: area_nth)
  then have "map (\<lambda>i. rows_of boxes ! i) (?js a b)
           = filter (\<lambda>r. a \<le> (r ! 2 - r ! 0) * (r ! 3 - r ! 1) \<and>
                          (r ! 2 - r ! 0) * (r ! 3 - r ! 1) < b) (rows_of boxes)"
    using nth_filter_upt[of "rows_of boxes"
            "\<lambda>r. a \<le> (r ! 2 - r ! 0) * (r ! 3 - r ! 1) \<and> (r ! 2 - r ! 0) * (r ! 3 - r ! 1) < b"]
    by (simp only:)
  with rows have kept:
    "rows_of (Tensor [length (?js a b), c] (concat (map (slice boxes) (?js a b))))
       = filter (\<lambda>r. a \<le> (r ! 2 - r ! 0) * (r ! 3 - r ! 1) \<and>
                      (r ! 2 - r ! 0) * (r ! 3 - r ! 1) < b) (rows_of boxes)"
    by (simp only:)
  show ?thesis
  proof (intro exI conjI)
    show "bounding_box_area boxes = Inr areas" by (rule ar)
    show "areas = Tensor [n] (map ?A [0..<n])" by (rule areas_def)
    show "area_range_inds boxes a b = Inr (Tensor [length (?js a b), 1] (?js a b))"
      by (rule inds)
    show "area_range_inds boxes b d = Inr (Tensor [length (?js b d), 1] (?js b d))"
      by (rule inds)
    show "area_range_inds boxes a d = Inr (Tensor [length (?js a d), 1] (?js a d))"
      by (rule inds)
    show "distinct (vals (Tensor [length (?js a b), 1] (?js a b)))" by simp
    show "set (vals (Tensor [length (?js a b), 1] (?js a b)))
            = {i. i < n \<and> a \<le> vals areas ! i \<and> vals areas ! i < b}"
      using mem by (simp only: tensor.sel)
    show "set (vals (Tensor [length (?js a b), 1] (?js a b)))
            = {i. i < n \<and> a \<le> ?A i \<and> ?A i < b}"
      using mem' by (simp only: tensor.sel)
    show "filter_boxes_by_area_range boxes a b
            = Inr (Tensor [length (?js a b), c] (concat (map (slice boxes) (?js a b))))"
      by (rule out)
    show "rows_of (Tensor [length (?js a b), c] (concat (map (slice boxes) (?js a b))))
            = map (\<lambda>i. rows_of boxes ! i) (vals (Tensor [length (?js a b), 1] (?js a b)))"
      using rows by (simp only: tensor.sel)
    show "rows_of (Tensor [length (?js a b), c] (concat (map (slice boxes) (?js a b))))
            = filter (\<lambda>r. a \<le> (r ! 2 - r ! 0) * (r ! 3 - r ! 1) \<and>
                           (r ! 2 - r ! 0) * (r ! 3 - r ! 1) < b) (rows_of boxes)"
      by (rule kept)
    show "set (vals (Tensor [length (?js a b), 1] (?js a b)))
            \<inter> set (vals (Tensor [length (?js b d), 1] (?js b d))) = {}"
      using disj by (simp only: tensor.sel)
    show "set (vals (Tensor [length (?js a b), 1] (?js a b)))
            \<union> set (vals (Tensor [length (?js b d), 1] (?js b d)))
          = set (vals (Tensor [length (?js a d), 1] (?js a d)))"
      using un by (simp only: tensor.sel)
  qed
qed

text \<open>
  Three boxes away from the origin, with corners \<open>(1, 1, 2, 2)\<close>, \<open>(1, 2, 3, 4)\<close> and
  \<open>(2, 1, 5, 4)\<close>: their areas are 1, 4 and 9. With the buckets \<open>[0, 4)\<close> and
  \<open>[4, 10)\<close> the first bucket keeps position 0, the second the positions 1 and 2.
\<close>

theorem area_range_partition_witness:
  "(\<exists>areas iab ibd iad out.
     bounding_box_area (Tensor [3, 4] [1, 1, 2, 2, 1, 2, 3, 4, 2, 1, 5, 4]) = Inr areas \<and>
     areas = Tensor [3] [1, 4, 9] \<and>
     area_range_inds (Tensor [3, 4] [1, 1, 2, 2, 1, 2, 3, 4, 2, 1, 5, 4]) 0 4 = Inr iab \<and>
     area_range_inds (Tensor [3, 4] [1, 1, 2, 2, 1, 2, 3, 4, 2, 1, 5, 4]) 4 10 = Inr ibd \<and>
     area_range_inds (Tensor [3, 4] [1, 1, 2, 2, 1, 2, 3, 4, 2, 1, 5, 4]) 0 10 = Inr iad \<and>
     iab = Tensor [1, 1] [0] \<and> ibd = Tensor [2, 1] [1, 2] \<and> iad = Tensor [3, 1] [0, 1, 2] \<and>
     filter_boxes_by_area_range (Tensor [3, 4] [1, 1, 2, 2, 1, 2, 3, 4, 2, 1, 5, 4]) 0 4 = Inr out \<and>
     out = Tensor [1, 4] [1, 1, 2, 2] \<and>
     rows_of out = filter (\<lambda>r. 0 \<le> (r ! 2 - r ! 0) * (r ! 3 - r ! 1) \<and>
                                (r ! 2 - r ! 0) * (r ! 3 - r ! 1) < 4)
                     (rows_of (Tensor [3, 4] [1, 1, 2, 2, 1, 2, 3, 4, 2, 1, 5, 4])) \<and>
     set (vals iab) \<inter> set (vals ibd) = {} \<and>
     set (vals iab) \<union> set (vals ibd) = set (vals iad))"
proof -
  let ?ex = "Tensor [3, 4] [1, 1, 2, 2, 1, 2, 3, 4, 2, 1, 5, 4 :: real]"
  have h: "shape ?ex = [3, 4]" "wf_tensor ?ex" "(4::nat) \<le> 4" "(0::real) < 4" "(4::real) < 10"
    by (simp_all add: wf_tensor_def)
  have 0: "bounding_box_area ?ex = Inr (Tensor [3] [1, 4, 9])" by code_simp
  have 1: "area_range_inds ?ex 0 4 = Inr (Tensor [1, 1] [0])" by code_simp
  have 2: "area_range_inds ?ex 4 10 = Inr (Tensor [2, 1] [1, 2])" by code_simp
  have 3: "area_range_inds ?ex 0 10 = Inr (Tensor [3, 1] [0, 1, 2])" by code_simp
  have 4: "filter_boxes_by_area_range ?ex 0 4 = Inr (Tensor [1, 4] [1, 1, 2, 2])" by code_simp
  from area_range_partition[OF h]
  obtain areas iab ibd iad out where r:
    "bounding_box_area ?ex = Inr areas"
    "area_range_inds ?ex 0 4 = Inr iab"
    "area_range_inds ?ex 4 10 = Inr ibd"
    "area_range_inds ?ex 0 10 = Inr iad"
    "filter_boxes_by_area_range ?ex 0 4 = Inr out"
    "rows_of out = filter (\<lambda>r. 0 \<le> (r ! 2 - r ! 0) * (r ! 3 - r ! 1) \<and>
                                (r ! 2 - r ! 0) * (r ! 3 - r ! 1) < 4) (rows_of ?ex)"
    "set (vals iab) \<inter> set (vals ibd) = {}"
    "set (vals iab) \<union> set (vals ibd) = set (vals iad)"
    by (elim exE conjE) (rule that)
  have v: "areas = Tensor [3] [1, 4, 9]" "iab = Tensor [1, 1] [0]" "ibd = Tensor [2, 1] [1, 2]"
          "iad = Tensor [3, 1] [0, 1, 2]" "out = Tensor [1, 4] [1, 1, 2, 2]"
    using r(1-5) 0 1 2 3 4 by simp_all
  show ?thesis
  proof (intro exI conjI)
    show "bounding_box_area ?ex = Inr areas" by (rule r)
    show "areas = Tensor [3] [1, 4, 9]" by (rule v)
    show "area_range_inds ?ex 0 4 = Inr iab" by (rule r)
    show "area_range_inds ?ex 4 10 = Inr ibd" by (rule r)
    show "area_range_inds ?ex 0 10 = Inr iad" by (rule r)
    show "iab = Tensor [1, 1] [0]" by (rule v)
    show "ibd = Tensor [2, 1] [1, 2]" by (rule v)
    show "iad = Tensor [3, 1] [0, 1, 2]" by (rule v)
    show "filter_boxes_by_area_range ?ex 0 4 = Inr out" by (rule r)
    show "out = Tensor [1, 4] [1, 1, 2, 2]" by (rule v)
    show "rows_of out = filter (\<lambda>r. 0 \<le> (r ! 2 - r ! 0) * (r ! 3 - r ! 1) \<and>
                                (r ! 2 - r ! 0) * (r ! 3 - r ! 1) < 4) (rows_of ?ex)"
      by (rule r)
    show "set (vals iab) \<inter> set (vals ibd) = {}" by (rule r)
    show "set (vals iab) \<union> set (vals ibd) = set (vals iad)" by (rule r)
  qed
qed

text \<open>
  Claim C10. \<open>filter_boxes_by_area_range\<close> returns the rows of its input at a strictly
  increasing list of positions (the local variable \<open>inds\<close>): the rows it keeps stand in
  the output in the order they have in the input.
\<close>

theorem area_range_order_preserved:
  assumes "shape boxes = [n, c]" and "wf_tensor boxes" and "4 \<le> c"
  shows "\<exists>inds out.
     area_range_inds boxes min_area max_area = Inr inds \<and>
     filter_boxes_by_area_range boxes min_area max_area = Inr out \<and>
     sorted_wrt (<) (vals inds) \<and>
     (\<forall>i \<in> set (vals inds). i < n) \<and>
     shape out = [length (vals inds), c] \<and>
     rows_of out = map (\<lambda>i. rows_of boxes ! i) (vals inds)"
proof -
  obtain areas where ar: "bounding_box_area boxes = Inr areas"
    using bounding_box_area_rank2[OF assms(1,3)] by blast
  let ?js = "filter (\<lambda>i. min_area \<le> vals areas ! i \<and> vals areas ! i < max_area) [0..<n]"
  note inds = area_range_inds_rank2[OF assms(1,3) ar, of min_area max_area]
  have bound: "\<forall>j \<in> set ?js. j < n" by simp
  have out: "filter_boxes_by_area_range boxes min_area max_area
               = Inr (Tensor [length ?js, c] (concat (map (slice boxes) ?js)))"
    using gathered_rows(1)[OF assms(1,2) bound]
    by (simp add: filter_boxes_by_area_range_def inds)
  have rows: "rows_of (Tensor [length ?js, c] (concat (map (slice boxes) ?js)))
               = map (\<lambda>i. rows_of boxes ! i) ?js"
    using gathered_rows(2)[OF assms(1,2) bound] .
  have srt: "sorted_wrt (<) ?js"
    by (intro sorted_wrt_filter) simp
  show ?thesis
  proof (intro exI conjI)
    show "area_range_inds boxes min_area max_area = Inr (Tensor [length ?js, 1] ?js)"
      by (rule inds)
    show "filter_boxes_by_area_range boxes min_area max_area
            = Inr (Tensor [length ?js, c] (concat (map (slice boxes) ?js)))"
      by (rule out)
    show "sorted_wrt (<) (vals (Tensor [length ?js, 1] ?js))"
      using srt by (simp only: tensor.sel)
    show "\<forall>i \<in> set (vals (Tensor [length ?js, 1] ?js)). i < n"
      using bound by (simp only: tensor.sel)
    show "shape (Tensor [length ?js, c] (concat (map (slice boxes) ?js)))
            = [length (vals (Tensor [length ?js, 1] ?js)), c]"
      by (simp only: tensor.sel)
    show "rows_of (Tensor [length ?js, c] (concat (map (slice boxes) ?js)))
            = map (\<lambda>i. rows_of boxes ! i) (vals (Tensor [length ?js, 1] ?js))"
      using rows by (simp only: tensor.sel)
  qed
qed

text \<open>Boxes of areas 9, 1 and 6 with the range \<open>[5, 10)\<close>: the rows 0 and 2, in this order.\<close>

theorem area_range_order_preserved_witness:
  "\<exists>inds out.
     area_range_inds (Tensor [3, 4] [0, 0, 3, 3, 0, 0, 1, 1, 0, 0, 2, 3]) 5 10 = Inr inds \<and>
     filter_boxes_by_area_range (Tensor [3, 4] [0, 0, 3, 3, 0, 0, 1, 1, 0, 0, 2, 3]) 5 10 = Inr out \<and>
     inds = Tensor [2, 1] [0, 2] \<and>
     out = Tensor [2, 4] [0, 0, 3, 3, 0, 0, 2, 3] \<and>
     sorted_wrt (<) (vals inds) \<and>
     shape out = [length (vals inds), 4] \<and>
     rows_of out = map (\<lambda>i. rows_of (Tensor [3, 4] [0, 0, 3, 3, 0, 0, 1, 1, 0, 0, 2, 3]) ! i) (vals inds)"
proof -
  let ?ex = "Tensor [3, 4] [0, 0, 3, 3, 0, 0, 1, 1, 0, 0, 2, 3 :: real]"
  have h: "shape ?ex = [3, 4]" "wf_tensor ?ex" "(4::nat) \<le> 4"
    by (simp_all add: wf_tensor_def)
  have 1: "area_range_inds ?ex 5 10 = Inr (Tensor [2, 1] [0, 2])" by code_simp
  have 2: "filter_boxes_by_area_range ?ex 5 10 = Inr (Tensor [2, 4] [0, 0, 3, 3, 0, 0, 2, 3])"
    by code_simp
  from area_range_order_preserved[OF h, of 5 10] 1 2 show ?thesis by auto
qed

subsection \<open>Filtering by class\<close>

lemma getitem_col_rank2:
  assumes "shape t = [n, c]" "wf_tensor t" "0 \<le> axis" "axis < int c"
  shows "getitem_col t axis = Inr (Tensor [n] (map (\<lambda>i. slice t i ! nat axis) [0..<n]))"
proof -
  have "take (Suc 0) (drop (i * c + nat axis) (vals t)) = [slice t i ! nat axis]" if "i < n" for i
  proof -
    have "Suc i * c \<le> n * c"
      using that by (intro mult_le_mono1) simp
    then have "i * c + nat axis < length (vals t)"
      using assms by (simp add: wf_tensor_def)
    then show ?thesis
      using assms that
      by (simp add: slice_nth take_Suc_conv_app_nth hd_drop_conv_nth take_Suc)
  qed
  then have "concat (map (\<lambda>i. take (Suc 0) (drop (i * c + nat axis) (vals t))) [0..<n])
           = map (\<lambda>i. slice t i ! nat axis) [0..<n]"
    by (induction n) simp_all
  then show ?thesis
    using assms by (simp add: getitem_col_def norm_index_def)
qed

text \<open>
  Claim C8. For a single-image box tensor of shape \<open>[n, c]\<close> and a column \<open>axis\<close> of it
  (4, the class column, by default), the rows of the result of \<open>filter_boxes\<close> are the
  rows of the input whose entry in that column equals the target value, in their order;
  there may be none. On the class column \<open>[1, -1, 2, 1]\<close> with target 1, \<open>tf.where\<close>
  selects the positions 0 and 3, and the result holds these two rows in that order.
\<close>

theorem filter_boxes_keeps_class_rows:
  assumes "shape boxes = [n, c]" and "wf_tensor boxes" and "0 \<le> axis" and "axis < int c"
  shows "(\<exists>out. filter_boxes boxes v axis = Inr out \<and>
           shape out = [length (rows_of out), c] \<and>
           rows_of out = filter (\<lambda>row. row ! nat axis = v) (rows_of boxes))
       \<and> getitem_col (Tensor [4, 6] [0 :: real, 0, 1, 1, 1, 5 / 10,
                                      0, 0, 2, 2, - 1, 6 / 10,
                                      0, 0, 3, 3, 2, 7 / 10,
                                      0, 0, 4, 4, 1, 8 / 10]) 4 = Inr (Tensor [4] [1, - 1, 2, 1])
       \<and> tf_where (tmap (\<lambda>x. x = 1) (Tensor [4] [1, - 1, 2, 1 :: real])) = Tensor [2, 1] [0, 3]
       \<and> filter_boxes (Tensor [4, 6] [0, 0, 1, 1, 1, 5 / 10,
                                       0, 0, 2, 2, - 1, 6 / 10,
                                       0, 0, 3, 3, 2, 7 / 10,
                                       0, 0, 4, 4, 1, 8 / 10]) 1 4
           = Inr (Tensor [2, 6] [0, 0, 1, 1, 1, 5 / 10,
                                 0, 0, 4, 4, 1, 8 / 10])"
proof -
  let ?js = "filter (\<lambda>i. slice boxes i ! nat axis = v) [0..<n]"
  let ?out = "Tensor [length ?js, c] (concat (map (slice boxes) ?js))"
  have bound: "\<forall>j \<in> set ?js. j < n" by simp
  have "tmap (\<lambda>x. x = v) (Tensor [n] (map (\<lambda>i. slice boxes i ! nat axis) [0..<n]))
          = Tensor [n] (map (\<lambda>i. slice boxes i ! nat axis = v) [0..<n])"
    by (simp add: tmap_def comp_def)
  then have out: "filter_boxes boxes v axis = Inr ?out"
    using gathered_rows(1)[OF assms(1,2) bound]
    by (simp add: filter_boxes_def getitem_col_rank2[OF assms] tf_where_rank1)
  have "rows_of ?out = map (slice boxes) ?js"
    using gathered_rows(2)[OF assms(1,2) bound] assms(1)
    by (simp add: rows_of_nth cong: map_cong)
  also have "\<dots> = filter (\<lambda>row. row ! nat axis = v) (rows_of boxes)"
    using assms(1) by (simp add: rows_of_def filter_map comp_def)
  finally have rows: "rows_of ?out = filter (\<lambda>row. row ! nat axis = v) (rows_of boxes)" .
  have len: "length (rows_of ?out) = length ?js"
    by (simp add: rows_of_def)
  have general: "\<exists>out. filter_boxes boxes v axis = Inr out \<and>
           shape out = [length (rows_of out), c] \<and>
           rows_of out = filter (\<lambda>row. row ! nat axis = v) (rows_of boxes)"
  proof (intro exI conjI)
    show "filter_boxes boxes v axis = Inr ?out" by (rule out)
    show "shape ?out = [length (rows_of ?out), c]" using len by simp
    show "rows_of ?out = filter (\<lambda>row. row ! nat axis = v) (rows_of boxes)" by (rule rows)
  qed
  let ?ex = "Tensor [4, 6] [0, 0, 1, 1, 1, 5 / 10,
                            0, 0, 2, 2, - 1, 6 / 10,
                            0, 0, 3, 3, 2, 7 / 10,
                            0, 0, 4, 4, 1, 8 / 10 :: real]"
  have col: "getitem_col ?ex 4 = Inr (Tensor [4] [1, - 1, 2, 1])"
    by code_simp
  have wh: "tf_where (tmap (\<lambda>x. x = 1) (Tensor [4] [1, - 1, 2, 1 :: real])) = Tensor [2, 1] [0, 3]"
    by code_simp
  have res: "filter_boxes ?ex 1 4 = Inr (Tensor [2, 6] [0, 0, 1, 1, 1, 5 / 10,
                                                        0, 0, 4, 4, 1, 8 / 10])"
    by code_simp
  from general col wh res show ?thesis by (intro conjI)
qed

text \<open>
  Three boxes of classes 2, 7 and 2: the target 2 keeps the first and the third, the
  target 9 keeps none.
\<close>

theorem filter_boxes_keeps_class_rows_witness:
  "(\<exists>out. filter_boxes (Tensor [3, 6] [0, 0, 1, 1, 2, 5 / 10,
                                         0, 0, 2, 2, 7, 6 / 10,
                                         0, 0, 3, 3, 2, 7 / 10]) 2 4 = Inr out \<and>
           shape out = [length (rows_of out), 6] \<and>
           rows_of out = filter (\<lambda>row. row ! nat 4 = 2)
             (rows_of (Tensor [3, 6] [0, 0, 1, 1, 2, 5 / 10,
                                      0, 0, 2, 2, 7, 6 / 10,
                                      0, 0, 3, 3, 2, 7 / 10])))
   \<and> filter_boxes (Tensor [3, 6] [0, 0, 1, 1, 2, 5 / 10,
                                   0, 0, 2, 2, 7, 6 / 10,
                                   0, 0, 3, 3, 2, 7 / 10]) 2 4
       = Inr (Tensor [2, 6] [0, 0, 1, 1, 2, 5 / 10, 0, 0, 3, 3, 2, 7 / 10])
   \<and> filter_boxes (Tensor [3, 6] [0, 0, 1, 1, 2, 5 / 10,
                                   0, 0, 2, 2, 7, 6 / 10,
                                   0, 0, 3, 3, 2, 7 / 10]) 9 4
       = Inr (Tensor [0, 6] [])"
proof -
  let ?ex = "Tensor [3, 6] [0, 0, 1, 1, 2, 5 / 10,
                            0, 0, 2, 2, 7, 6 / 10,
                            0, 0, 3, 3, 2, 7 / 10 :: real]"
  have h: "shape ?ex = [3, 6]" "wf_tensor ?ex" "(0::int) \<le> 4" "(4::int) < int 6"
    by (simp_all add: wf_tensor_def)
  have 1: "filter_boxes ?ex 2 4 = Inr (Tensor [2, 6] [0, 0, 1, 1, 2, 5 / 10, 0, 0, 3, 3, 2, 7 / 10])"
    by code_simp
  have 2: "filter_boxes ?ex 9 4 = Inr (Tensor [0, 6] [])"
    by code_simp
  from filter_boxes_keeps_class_rows[OF h, of 2] 1 2 show ?thesis by (intro conjI) blast+
qed

subsection \<open>Padding, slicing and stripping\<close>

text \<open>
  Claim C4, as the code has it. Take a box set of \<open>n\<close> rows that holds boxes, classes and
  confidence, none of its classes being the sentinel -1. Pad the one-element batch of
  each of the three tensors with \<open>to_sentinel_padded_bounding_box_tensor\<close>, slice
  out image 0 with \<open>get_boxes_for_image\<close> and strip sentinels with
  \<open>filter_out_sentinels\<close>. If the set has at least one row, the result is the set
  itself, exactly. If the set is empty, its classes and confidences come back as they
  were and its boxes come back without rows, as a tensor of shape \<open>[0, 0]\<close>.
\<close>

theorem pad_slice_strip_round_trip:
  assumes "shape boxes = [n, c]" and "wf_tensor boxes"
      and "shape classes = [n]" and "wf_tensor classes"
      and "shape confidence = [n]" and "wf_tensor confidence"
      and "\<forall>x \<in> set (vals classes). x \<noteq> - 1"
  shows "\<exists>pb pc pf image out boxes'.
      to_sentinel_padded_bounding_box_tensor [boxes] = Inr pb \<and>
      to_sentinel_padded_bounding_box_tensor [classes] = Inr pc \<and>
      to_sentinel_padded_bounding_box_tensor [confidence] = Inr pf \<and>
      get_boxes_for_image [''boxes'' \<mapsto> pb, ''classes'' \<mapsto> pc, ''confidence'' \<mapsto> pf] 0
        = Inr image \<and>
      filter_out_sentinels image = Inr out \<and>
      out = [''boxes'' \<mapsto> boxes', ''classes'' \<mapsto> classes, ''confidence'' \<mapsto> confidence] \<and>
      rows_of boxes' = rows_of boxes \<and>
      (0 < n \<longrightarrow> boxes' = boxes) \<and>
      (0 < n \<longrightarrow>
         out = [''boxes'' \<mapsto> boxes, ''classes'' \<mapsto> classes, ''confidence'' \<mapsto> confidence]) \<and>
      (n = 0 \<longrightarrow> boxes' = Tensor [0, 0] [])"
proof -
  define c' where "c' = (if 0 < n then c else 0)"
  let ?b = "Tensor [n, c'] (vals boxes)"
  let ?pb = "Tensor [1, n, c'] (vals boxes)"
  let ?pc = "Tensor [1, n] (vals classes)"
  let ?pf = "Tensor [1, n] (vals confidence)"
  let ?image = "[''boxes'' \<mapsto> ?b, ''classes'' \<mapsto> classes, ''confidence'' \<mapsto> confidence]"
  have cl: "classes = Tensor [n] (vals classes)"
    using assms(3) by (cases classes) simp
  have cf: "confidence = Tensor [n] (vals confidence)"
    using assms(5) by (cases confidence) simp
  have lens: "length (vals boxes) = n * c'" "length (vals classes) = n"
             "length (vals confidence) = n"
    using assms by (auto simp: wf_tensor_def c'_def)
  have wfb: "wf_tensor ?b" using lens by (simp add: wf_tensor_def)
  have pb: "to_sentinel_padded_bounding_box_tensor [boxes] = Inr ?pb"
    unfolding to_sentinel_padded_bounding_box_tensor_def c'_def
    by (rule stack_single_rank2[OF assms(1,2)])
  have pc: "to_sentinel_padded_bounding_box_tensor [classes] = Inr ?pc"
    unfolding to_sentinel_padded_bounding_box_tensor_def
    by (rule stack_single_rank1[OF assms(3,4)])
  have pf: "to_sentinel_padded_bounding_box_tensor [confidence] = Inr ?pf"
    unfolding to_sentinel_padded_bounding_box_tensor_def
    by (rule stack_single_rank1[OF assms(5,6)])
  have g1: "getitem0 ?pb 0 = Inr ?b"
    using lens by (intro getitem0_single) simp
  have g2: "getitem0 ?pc 0 = Inr classes"
    using getitem0_single[of "vals classes" "[n]"] lens cl by simp
  have g3: "getitem0 ?pf 0 = Inr confidence"
    using getitem0_single[of "vals confidence" "[n]"] lens cf by simp
  have image: "get_boxes_for_image
                 [''boxes'' \<mapsto> ?pb, ''classes'' \<mapsto> ?pc, ''confidence'' \<mapsto> ?pf] 0
               = Inr ?image"
    using g1 g2 g3 by (simp add: get_boxes_for_image_def getkey_def)
  have "tf_where (tmap (\<lambda>c. c \<noteq> - 1) (Tensor [n] (vals classes)))
          = Tensor [length (vals classes), 1] [0..<length (vals classes)]"
    using assms(7) by (intro tf_where_rank1_all) simp
  then have wh: "tf_where (tmap (\<lambda>c. c \<noteq> - 1) classes) = Tensor [n, 1] [0..<n]"
    using cl lens by simp
  have s1: "tf_gather_nd ?b (Tensor [n, 1] [0..<n]) = Inr ?b"
    using wfb by (intro gather_all_rows) simp_all
  have s2: "tf_gather_nd classes (Tensor [n, 1] [0..<n]) = Inr classes"
    using assms(3,4) by (intro gather_all_rows)
  have s3: "tf_gather_nd confidence (Tensor [n, 1] [0..<n]) = Inr confidence"
    using assms(5,6) by (intro gather_all_rows)
  have out: "filter_out_sentinels ?image = Inr ?image"
    using wh s1 s2 s3 by (simp add: filter_out_sentinels_def getkey_def)
  have same: "0 < n \<longrightarrow> ?b = boxes"
    using assms(1) by (cases boxes) (simp add: c'_def)
  have exact: "0 < n \<longrightarrow>
      ?image = [''boxes'' \<mapsto> boxes, ''classes'' \<mapsto> classes, ''confidence'' \<mapsto> confidence]"
    using same by simp
  have empty: "n = 0 \<longrightarrow> ?b = Tensor [0, 0] []"
    using lens(1) by (auto simp: c'_def)
  have rows: "rows_of ?b = rows_of boxes"
  proof (cases "0 < n")
    case True
    with same show ?thesis by simp
  next
    case False
    then show ?thesis using assms(1) by (simp add: rows_of_def)
  qed
  show ?thesis
  proof (intro exI conjI)
    show "to_sentinel_padded_bounding_box_tensor [boxes] = Inr ?pb" by (rule pb)
    show "to_sentinel_padded_bounding_box_tensor [classes] = Inr ?pc" by (rule pc)
    show "to_sentinel_padded_bounding_box_tensor [confidence] = Inr ?pf" by (rule pf)
    show "get_boxes_for_image
            [''boxes'' \<mapsto> ?pb, ''classes'' \<mapsto> ?pc, ''confidence'' \<mapsto> ?pf] 0 = Inr ?image"
      by (rule image)
    show "filter_out_sentinels ?image = Inr ?image" by (rule out)
    show "?image = [''boxes'' \<mapsto> ?b, ''classes'' \<mapsto> classes, ''confidence'' \<mapsto> confidence]"
      by (rule refl)
    show "rows_of ?b = rows_of boxes" by (rule rows)
    show "0 < n \<longrightarrow> ?b = boxes" by (rule same)
    show "0 < n \<longrightarrow>
            ?image = [''boxes'' \<mapsto> boxes, ''classes'' \<mapsto> classes, ''confidence'' \<mapsto> confidence]"
      by (rule exact)
    show "n = 0 \<longrightarrow> ?b = Tensor [0, 0] []" by (rule empty)
  qed
qed

text \<open>A box set of two boxes comes back as it was.\<close>

theorem pad_slice_strip_round_trip_witness:
  "\<exists>pb pc pf image.
      to_sentinel_padded_bounding_box_tensor [Tensor [2, 4] [0, 0, 1, 1, 0, 0, 2, 2]] = Inr pb \<and>
      to_sentinel_padded_bounding_box_tensor [Tensor [2] [1, 2]] = Inr pc \<and>
      to_sentinel_padded_bounding_box_tensor [Tensor [2] [9 / 10, 8 / 10]] = Inr pf \<and>
      get_boxes_for_image [''boxes'' \<mapsto> pb, ''classes'' \<mapsto> pc, ''confidence'' \<mapsto> pf] 0
        = Inr image \<and>
      filter_out_sentinels image =
        Inr [''boxes'' \<mapsto> Tensor [2, 4] [0, 0, 1, 1, 0, 0, 2, 2],
             ''classes'' \<mapsto> Tensor [2] [1, 2],
             ''confidence'' \<mapsto> Tensor [2] [9 / 10, 8 / 10]]"
proof -
  let ?b = "Tensor [2, 4] [0, 0, 1, 1, 0, 0, 2, 2 :: real]"
  let ?c = "Tensor [2] [1, 2 :: real]"
  let ?f = "Tensor [2] [9 / 10, 8 / 10 :: real]"
  have h: "shape ?b = [2, 4]" "wf_tensor ?b" "shape ?c = [2]" "wf_tensor ?c"
          "shape ?f = [2]" "wf_tensor ?f" "\<forall>x \<in> set (vals ?c). x \<noteq> - 1"
    by (simp_all add: wf_tensor_def)
  from pad_slice_strip_round_trip[OF h] show ?thesis by auto
qed

text \<open>
  The claim as the spec words it speaks of any box set and of an exact copy. It fails in
  two ways. A ground-truth set, which has no confidence sequence, does not come back:
  after padding, \<open>get_boxes_for_image\<close> raises \<open>KeyError\<close>. And an empty set, whose boxes
  have shape \<open>[0, 4]\<close>, comes back with boxes of shape \<open>[0, 0]\<close>: padding goes up to the
  longest row present, and there is none.
\<close>

theorem round_trip_fails_without_confidence_or_rows:
  "to_sentinel_padded_bounding_box_tensor [Tensor [1, 4] [0, 0, 1, 1]]
     = Inr (Tensor [1, 1, 4] [0, 0, 1, 1])
   \<and> to_sentinel_padded_bounding_box_tensor [Tensor [1] [1]] = Inr (Tensor [1, 1] [1])
   \<and> get_boxes_for_image
        [''boxes'' \<mapsto> Tensor [1, 1, 4] [0, 0, 1, 1], ''classes'' \<mapsto> Tensor [1, 1] [1]] 0
     = Inl (KeyError ''confidence'')
   \<and> to_sentinel_padded_bounding_box_tensor [Tensor [0, 4] []] = Inr (Tensor [1, 0, 0] [])
   \<and> to_sentinel_padded_bounding_box_tensor [Tensor [0] []] = Inr (Tensor [1, 0] [])
   \<and> get_boxes_for_image
        [''boxes'' \<mapsto> Tensor [1, 0, 0] [], ''classes'' \<mapsto> Tensor [1, 0] [],
         ''confidence'' \<mapsto> Tensor [1, 0] []] 0
     = Inr [''boxes'' \<mapsto> Tensor [0, 0] [], ''classes'' \<mapsto> Tensor [0] [],
            ''confidence'' \<mapsto> Tensor [0] []]
   \<and> filter_out_sentinels
        [''boxes'' \<mapsto> Tensor [0, 0] [], ''classes'' \<mapsto> Tensor [0] [],
         ''confidence'' \<mapsto> Tensor [0] []]
     = Inr [''boxes'' \<mapsto> Tensor [0, 0] [], ''classes'' \<mapsto> Tensor [0] [],
            ''confidence'' \<mapsto> Tensor [0] []]
   \<and> Tensor [0, 0] [] \<noteq> Tensor [0, 4] ([] :: real list)"
proof (intro conjI)
  show "to_sentinel_padded_bounding_box_tensor [Tensor [1, 4] [0, 0, 1, 1]]
     = Inr (Tensor [1, 1, 4] [0, 0, 1, 1])" by code_simp
  show "to_sentinel_padded_bounding_box_tensor [Tensor [1] [1]] = Inr (Tensor [1, 1] [1])"
    by code_simp
  show "get_boxes_for_image
        [''boxes'' \<mapsto> Tensor [1, 1, 4] [0, 0, 1, 1], ''classes'' \<mapsto> Tensor [1, 1] [1]] 0
     = Inl (KeyError ''confidence'')"
    by (simp add: get_boxes_for_image_def getkey_def)
  show "to_sentinel_padded_bounding_box_tensor [Tensor [0, 4] []] = Inr (Tensor [1, 0, 0] [])"
    by code_simp
  show "to_sentinel_padded_bounding_box_tensor [Tensor [0] []] = Inr (Tensor [1, 0] [])"
    by code_simp
  show "get_boxes_for_image
        [''boxes'' \<mapsto> Tensor [1, 0, 0] [], ''classes'' \<mapsto> Tensor [1, 0] [],
         ''confidence'' \<mapsto> Tensor [1, 0] []] 0
     = Inr [''boxes'' \<mapsto> Tensor [0, 0] [], ''classes'' \<mapsto> Tensor [0] [],
            ''confidence'' \<mapsto> Tensor [0] []]"
    by (simp add: get_boxes_for_image_def getkey_def getitem0_def norm_index_def slice_def)
  show "filter_out_sentinels
        [''boxes'' \<mapsto> Tensor [0, 0] [], ''classes'' \<mapsto> Tensor [0] [],
         ''confidence'' \<mapsto> Tensor [0] []]
     = Inr [''boxes'' \<mapsto> Tensor [0, 0] [], ''classes'' \<mapsto> Tensor [0] [],
            ''confidence'' \<mapsto> Tensor [0] []]"
    by (simp add: filter_out_sentinels_def getkey_def tf_where_def tmap_def tf_gather_nd_def)
  show "Tensor [0, 0] [] \<noteq> Tensor [0, 4] ([] :: real list)" by simp
qed

subsection \<open>The greedy matcher\<close>

lemma fold_write_nth:
  assumes "k \<le> length xs"
  shows "length (fold (\<lambda>i a. a[i := v]) [0..<k] xs) = length xs
       \<and> (\<forall>i < length xs. fold (\<lambda>i a. a[i := v]) [0..<k] xs ! i = (if i < k then v else xs ! i))"
  using assms
proof (induction k)
  case 0
  then show ?case by simp
next
  case (Suc k)
  then show ?case by (auto simp: nth_list_update)
qed

lemma fold_write_all:
  "fold (\<lambda>i a. a[i := v]) [0..<n] (replicate n w) = replicate n v"
  using fold_write_nth[of n "replicate n w" v]
  by (intro nth_equalityI) simp_all

text \<open>The inner loop: what the scan over the ground-truth boxes leaves in \<open>(iou, match_index)\<close>.\<close>

lemma scan_gt_fold:
  fixes e :: "nat \<Rightarrow> real"
  assumes e: "\<And>i. e i = getitem2 ious i det"
  shows "case fold (scan_gt ious gt det) [0..<g] (iou0, - 1) of (iou, m) \<Rightarrow>
      (m = - 1 \<and> iou = iou0 \<and> (\<forall>i<g. \<not> gt ! i > - 1 \<longrightarrow> e i < iou0))
    \<or> (\<exists>k<g. m = int k \<and> \<not> gt ! k > - 1 \<and> iou = e k \<and> iou0 \<le> e k
           \<and> (\<forall>i<g. \<not> gt ! i > - 1 \<longrightarrow> e i \<le> e k \<and> (e i = e k \<longrightarrow> i \<le> k)))"
proof (induction g)
  case 0
  then show ?case by simp
next
  case (Suc g)
  obtain iou m where st: "fold (scan_gt ious gt det) [0..<g] (iou0, - 1) = (iou, m)"
    by (cases "fold (scan_gt ious gt det) [0..<g] (iou0, - 1)")
  from Suc[unfolded st]
  have IH: "(m = - 1 \<and> iou = iou0 \<and> (\<forall>i<g. \<not> gt ! i > - 1 \<longrightarrow> e i < iou0))
    \<or> (\<exists>k<g. m = int k \<and> \<not> gt ! k > - 1 \<and> iou = e k \<and> iou0 \<le> e k
           \<and> (\<forall>i<g. \<not> gt ! i > - 1 \<longrightarrow> e i \<le> e k \<and> (e i = e k \<longrightarrow> i \<le> k)))"
    by simp
  have step: "fold (scan_gt ious gt det) [0..<Suc g] (iou0, - 1) = scan_gt ious gt det g (iou, m)"
    by (simp add: st)
  consider (matched) "gt ! g > - 1" | (low) "\<not> gt ! g > - 1" "e g < iou"
    | (take) "\<not> gt ! g > - 1" "\<not> e g < iou"
    by blast
  then show ?case
  proof cases
    case matched
    then have "scan_gt ious gt det g (iou, m) = (iou, m)" by (simp add: scan_gt_def)
    with IH matched show ?thesis unfolding step
      by (auto simp: less_Suc_eq)
  next
    case low
    then have "scan_gt ious gt det g (iou, m) = (iou, m)" by (simp add: scan_gt_def e)
    with IH low show ?thesis unfolding step
      by (auto simp: less_Suc_eq)
  next
    case take
    then have new: "scan_gt ious gt det g (iou, m) = (e g, int g)" by (simp add: scan_gt_def e)
    have lo: "iou0 \<le> iou" using IH by auto
    have all: "\<forall>i<g. \<not> gt ! i > - 1 \<longrightarrow> e i \<le> iou"
      using IH by force
    have "\<exists>k<Suc g. int g = int k \<and> \<not> gt ! k > - 1 \<and> e g = e k \<and> iou0 \<le> e k
           \<and> (\<forall>i<Suc g. \<not> gt ! i > - 1 \<longrightarrow> e i \<le> e k \<and> (e i = e k \<longrightarrow> i \<le> k))"
    proof (intro exI[of _ g] conjI allI impI)
      show "g < Suc g" by simp
      show "int g = int g" by simp
      show "\<not> gt ! g > - 1" by (rule take(1))
      show "e g = e g" by simp
      show "iou0 \<le> e g" using lo take(2) by simp
    next
      fix i assume "i < Suc g" "\<not> - 1 < gt ! i"
      then show "e i \<le> e g" using all take(2) by (cases "i = g") (auto simp: less_Suc_eq)
    next
      fix i assume "i < Suc g"
      then show "i \<le> g" by simp
    qed
    then show ?thesis unfolding step new by simp
  qed
qed

text \<open>
  The outer loop. After the predicted boxes \<open>0, \<dots>, d - 1\<close> have been processed, a
  ground-truth box is marked in \<open>gt_matches\<close> exactly if one of them was matched to it,
  and each of them holds the choice of the inner loop among the boxes that were not
  marked before it.
\<close>

lemma match_detection_fold:
  assumes "d \<le> np"
  shows "case fold (match_detection ious t nt) [0..<d] (replicate nt (- 1), replicate np (- 1)) of
     (gt, pm) \<Rightarrow>
       length gt = nt \<and> length pm = np \<and>
       (\<forall>i<nt. (gt ! i > - 1) = (\<exists>j<d. pm ! j = int i)) \<and>
       (\<forall>j<np. d \<le> j \<longrightarrow> pm ! j = - 1) \<and>
       (\<forall>j<d.
          (pm ! j = - 1 \<and>
             (\<forall>i<nt. (\<forall>j'<j. pm ! j' \<noteq> int i) \<longrightarrow> getitem2 ious i j < min t (1 - 1 / 10 ^ 10)))
        \<or> (\<exists>k<nt. pm ! j = int k \<and> (\<forall>j'<j. pm ! j' \<noteq> int k) \<and>
               min t (1 - 1 / 10 ^ 10) \<le> getitem2 ious k j \<and>
               (\<forall>i<nt. (\<forall>j'<j. pm ! j' \<noteq> int i) \<longrightarrow>
                   getitem2 ious i j \<le> getitem2 ious k j \<and>
                   (getitem2 ious i j = getitem2 ious k j \<longrightarrow> i \<le> k))))"
  using assms
proof (induction d)
  case 0
  then show ?case by simp
next
  case (Suc d)
  define iou0 where "iou0 = min t (1 - 1 / 10 ^ 10)"
  define R where "R pm j \<longleftrightarrow>
          (pm ! j = - 1 \<and>
             (\<forall>i<nt. (\<forall>j'<j. pm ! j' \<noteq> int i) \<longrightarrow> getitem2 ious i j < iou0))
        \<or> (\<exists>k<nt. pm ! j = int k \<and> (\<forall>j'<j. pm ! j' \<noteq> int k) \<and>
               iou0 \<le> getitem2 ious k j \<and>
               (\<forall>i<nt. (\<forall>j'<j. pm ! j' \<noteq> int i) \<longrightarrow>
                   getitem2 ious i j \<le> getitem2 ious k j \<and>
                   (getitem2 ious i j = getitem2 ious k j \<longrightarrow> i \<le> k)))" for pm :: "int list" and j
  have R_cong: "R pm' j = R pm j" if "\<forall>j'\<le>j. pm' ! j' = pm ! j'" for pm pm' j
    using that unfolding R_def by (simp add: less_imp_le)
  obtain gt pm where st:
    "fold (match_detection ious t nt) [0..<d] (replicate nt (- 1), replicate np (- 1)) = (gt, pm)"
    by (cases "fold (match_detection ious t nt) [0..<d] (replicate nt (- 1), replicate np (- 1))")
  have d: "d < np" using Suc.prems by simp
  from Suc.IH[unfolded st] d
  have len: "length gt = nt" "length pm = np"
    and marked: "\<forall>i<nt. (gt ! i > - 1) = (\<exists>j<d. pm ! j = int i)"
    and rest: "\<forall>j<np. d \<le> j \<longrightarrow> pm ! j = - 1"
    and earlier: "\<forall>j<d. R pm j"
    unfolding R_def iou0_def by simp_all
  have free: "(\<not> gt ! i > - 1) = (\<forall>j'<d. pm ! j' \<noteq> int i)" if "i < nt" for i
    using marked that by simp
  obtain iou m where inner: "fold (scan_gt ious gt d) [0..<nt] (iou0, - 1) = (iou, m)"
    by (cases "fold (scan_gt ious gt d) [0..<nt] (iou0, - 1)")
  from scan_gt_fold[where e = "\<lambda>i. getitem2 ious i d" and ious = ious and det = d
                   and gt = gt and g = nt and ?iou0.0 = iou0, unfolded inner]
  have choice:
     "(m = - 1 \<and> (\<forall>i<nt. \<not> gt ! i > - 1 \<longrightarrow> getitem2 ious i d < iou0))
    \<or> (\<exists>k<nt. m = int k \<and> \<not> gt ! k > - 1 \<and> iou0 \<le> getitem2 ious k d
           \<and> (\<forall>i<nt. \<not> gt ! i > - 1 \<longrightarrow> getitem2 ious i d \<le> getitem2 ious k d
                  \<and> (getitem2 ious i d = getitem2 ious k d \<longrightarrow> i \<le> k)))"
    by auto
  define pm' where "pm' = pm[d := m]"
  define gt' where "gt' = (if m = - 1 then gt else gt[nat m := int d])"
  have step: "fold (match_detection ious t nt) [0..<Suc d]
                (replicate nt (- 1), replicate np (- 1)) = (gt', pm')"
    using inner by (simp add: st match_detection_def iou0_def pm'_def gt'_def Let_def)
  have pm'_old: "pm' ! j = pm ! j" if "j < d" for j
    using that by (simp add: pm'_def)
  have pm'_d: "pm' ! d = m"
    using d len by (simp add: pm'_def)
  have R_d: "R pm' d"
  proof -
    have eq: "(\<forall>j'<d. pm' ! j' \<noteq> int i) = (\<not> gt ! i > - 1)" if "i < nt" for i
      using free[OF that] pm'_old by simp
    from choice show ?thesis
    proof
      assume "m = - 1 \<and> (\<forall>i<nt. \<not> gt ! i > - 1 \<longrightarrow> getitem2 ious i d < iou0)"
      then show ?thesis unfolding R_def using eq pm'_d by simp
    next
      assume "\<exists>k<nt. m = int k \<and> \<not> gt ! k > - 1 \<and> iou0 \<le> getitem2 ious k d
           \<and> (\<forall>i<nt. \<not> gt ! i > - 1 \<longrightarrow> getitem2 ious i d \<le> getitem2 ious k d
                  \<and> (getitem2 ious i d = getitem2 ious k d \<longrightarrow> i \<le> k))"
      then obtain k where k: "k < nt" "m = int k" "\<not> gt ! k > - 1" "iou0 \<le> getitem2 ious k d"
          "\<forall>i<nt. \<not> gt ! i > - 1 \<longrightarrow> getitem2 ious i d \<le> getitem2 ious k d
                  \<and> (getitem2 ious i d = getitem2 ious k d \<longrightarrow> i \<le> k)"
        by blast
      have "\<exists>k<nt. pm' ! d = int k \<and> (\<forall>j'<d. pm' ! j' \<noteq> int k) \<and>
               iou0 \<le> getitem2 ious k d \<and>
               (\<forall>i<nt. (\<forall>j'<d. pm' ! j' \<noteq> int i) \<longrightarrow>
                   getitem2 ious i d \<le> getitem2 ious k d \<and>
                   (getitem2 ious i d = getitem2 ious k d \<longrightarrow> i \<le> k))"
        using k eq pm'_d by (intro exI[of _ k]) simp
      then show ?thesis unfolding R_def by blast
    qed
  qed
  have R_all: "\<forall>j<Suc d. R pm' j"
  proof (intro allI impI)
    fix j assume "j < Suc d"
    show "R pm' j"
    proof (cases "j = d")
      case True
      with R_d show ?thesis by simp
    next
      case False
      with \<open>j < Suc d\<close> have "j < d" by simp
      then have "R pm' j = R pm j" by (intro R_cong) (simp add: pm'_old)
      with earlier \<open>j < d\<close> show ?thesis by simp
    qed
  qed
  have marked': "\<forall>i<nt. (gt' ! i > - 1) = (\<exists>j<Suc d. pm' ! j = int i)"
  proof (intro allI impI)
    fix i assume i: "i < nt"
    have split: "(\<exists>j<Suc d. pm' ! j = int i) = ((\<exists>j<d. pm ! j = int i) \<or> m = int i)"
      using pm'_old pm'_d by (auto simp: less_Suc_eq)
    show "(gt' ! i > - 1) = (\<exists>j<Suc d. pm' ! j = int i)"
    proof (cases "m = - 1")
      case True
      then show ?thesis using marked i split by (simp add: gt'_def)
    next
      case False
      with choice obtain k where k: "k < nt" "m = int k" by auto
      have "(gt' ! i > - 1) = (i = k \<or> gt ! i > - 1)"
        using False k i len by (auto simp: gt'_def nth_list_update)
      then show ?thesis using marked i split k by auto
    qed
  qed
  have rest': "\<forall>j<np. Suc d \<le> j \<longrightarrow> pm' ! j = - 1"
    using rest by (simp add: pm'_def)
  have len': "length gt' = nt" "length pm' = np"
    using len by (simp_all add: gt'_def pm'_def)
  show ?case
    unfolding step using len' marked' rest' R_all
    unfolding R_def iou0_def by simp
qed

text \<open>
  The result of \<open>match_boxes\<close> on a rank-2 table: every predicted box \<open>j\<close> is either
  left unmatched, and then every ground-truth box not matched to an earlier predicted box
  has an IoU with \<open>j\<close> below the clamped threshold; or it is matched to a ground-truth
  box \<open>k\<close> that no earlier predicted box was matched to, whose IoU reaches the clamped
  threshold and is the largest among such boxes, \<open>k\<close> being the last of those that
  reach it.
\<close>

lemma match_boxes_result:
  assumes "shape ious = [nt, np]"
  shows "\<exists>pm. match_boxes ious t = Inr (Tensor [np] pm) \<and> length pm = np \<and>
       (\<forall>j<np.
          (pm ! j = - 1 \<and>
             (\<forall>i<nt. (\<forall>j'<j. pm ! j' \<noteq> int i) \<longrightarrow> getitem2 ious i j < min t (1 - 1 / 10 ^ 10)))
        \<or> (\<exists>k<nt. pm ! j = int k \<and> (\<forall>j'<j. pm ! j' \<noteq> int k) \<and>
               min t (1 - 1 / 10 ^ 10) \<le> getitem2 ious k j \<and>
               (\<forall>i<nt. (\<forall>j'<j. pm ! j' \<noteq> int i) \<longrightarrow>
                   getitem2 ious i j \<le> getitem2 ious k j \<and>
                   (getitem2 ious i j = getitem2 ious k j \<longrightarrow> i \<le> k))))"
proof -
  obtain gt pm where st:
    "fold (match_detection ious t nt) [0..<np] (replicate nt (- 1), replicate np (- 1)) = (gt, pm)"
    by (cases "fold (match_detection ious t nt) [0..<np] (replicate nt (- 1), replicate np (- 1))")
  have res: "match_boxes ious t = Inr (Tensor [np] pm)"
    using assms by (simp add: match_boxes_def fold_write_all st)
  from match_detection_fold[where d = np and np = np and ious = ious and t = t and nt = nt,
         unfolded st]
  have "length pm = np \<and>
       (\<forall>j<np.
          (pm ! j = - 1 \<and>
             (\<forall>i<nt. (\<forall>j'<j. pm ! j' \<noteq> int i) \<longrightarrow> getitem2 ious i j < min t (1 - 1 / 10 ^ 10)))
        \<or> (\<exists>k<nt. pm ! j = int k \<and> (\<forall>j'<j. pm ! j' \<noteq> int k) \<and>
               min t (1 - 1 / 10 ^ 10) \<le> getitem2 ious k j \<and>
               (\<forall>i<nt. (\<forall>j'<j. pm ! j' \<noteq> int i) \<longrightarrow>
                   getitem2 ious i j \<le> getitem2 ious k j \<and>
                   (getitem2 ious i j = getitem2 ious k j \<longrightarrow> i \<le> k))))"
    by simp
  with res show ?thesis by (intro exI[of _ pm] conjI) simp_all
qed

lemma distinct_filter_nth:
  assumes "\<And>i j. i < j \<Longrightarrow> j < length xs \<Longrightarrow> P (xs ! j) \<Longrightarrow> xs ! i \<noteq> xs ! j"
  shows "distinct (filter P xs)"
  using assms
proof (induction xs rule: rev_induct)
  case Nil
  then show ?case by simp
next
  case (snoc x xs)
  have IH: "distinct (filter P xs)"
  proof (rule snoc.IH)
    fix i j assume "i < j" "j < length xs" "P (xs ! j)"
    with snoc.prems[of i j] show "xs ! i \<noteq> xs ! j" by (simp add: nth_append)
  qed
  have "x \<notin> set xs" if "P x"
  proof
    assume "x \<in> set xs"
    then obtain i where i: "i < length xs" "xs ! i = x" by (auto simp: in_set_conv_nth)
    with snoc.prems[of i "length xs"] that show False by (simp add: nth_append)
  qed
  with IH show ?case by auto
qed

text \<open>
  Claim C2. For every IoU table of shape \<open>[num_true, num_pred]\<close> and every threshold,
  \<open>match_boxes\<close> returns \<open>num_pred\<close> entries, each -1 or the index of a ground-truth
  box; at most \<open>min num_true num_pred\<close> of them differ from -1, and no ground-truth
  index occurs twice among these.
\<close>

theorem match_boxes_one_to_one:
  assumes "shape ious = [num_true, num_pred]"
  shows "\<exists>matches. match_boxes ious threshold = Inr (Tensor [num_pred] matches) \<and>
           length matches = num_pred \<and>
           (\<forall>m \<in> set matches. m = - 1 \<or> (0 \<le> m \<and> m < int num_true)) \<and>
           length (filter (\<lambda>m. m \<noteq> - 1) matches) \<le> min num_true num_pred \<and>
           distinct (filter (\<lambda>m. m \<noteq> - 1) matches)"
proof -
  from match_boxes_result[OF assms, of threshold]
  obtain pm where res: "match_boxes ious threshold = Inr (Tensor [num_pred] pm)"
    and len: "length pm = num_pred"
    and R: "\<forall>j<num_pred.
          (pm ! j = - 1 \<and>
             (\<forall>i<num_true. (\<forall>j'<j. pm ! j' \<noteq> int i) \<longrightarrow>
                 getitem2 ious i j < min threshold (1 - 1 / 10 ^ 10)))
        \<or> (\<exists>k<num_true. pm ! j = int k \<and> (\<forall>j'<j. pm ! j' \<noteq> int k) \<and>
               min threshold (1 - 1 / 10 ^ 10) \<le> getitem2 ious k j \<and>
               (\<forall>i<num_true. (\<forall>j'<j. pm ! j' \<noteq> int i) \<longrightarrow>
                   getitem2 ious i j \<le> getitem2 ious k j \<and>
                   (getitem2 ious i j = getitem2 ious k j \<longrightarrow> i \<le> k)))"
    by (elim exE conjE) (rule that)
  have each: "pm ! j = - 1 \<or> (\<exists>k<num_true. pm ! j = int k \<and> (\<forall>j'<j. pm ! j' \<noteq> int k))"
    if "j < num_pred" for j
    using R[rule_format, OF that] by (elim disjE exE conjE) (simp, blast)
  have range: "\<forall>m \<in> set pm. m = - 1 \<or> (0 \<le> m \<and> m < int num_true)"
  proof
    fix m assume "m \<in> set pm"
    then obtain j where "j < num_pred" "pm ! j = m" using len by (auto simp: in_set_conv_nth)
    with each[of j] show "m = - 1 \<or> (0 \<le> m \<and> m < int num_true)" by auto
  qed
  have dist: "distinct (filter (\<lambda>m. m \<noteq> - 1) pm)"
  proof (rule distinct_filter_nth)
    fix i j assume ij: "i < j" "j < length pm" "pm ! j \<noteq> - 1"
    with each[of j] len obtain k where "pm ! j = int k" "\<forall>j'<j. pm ! j' \<noteq> int k" by auto
    with ij show "pm ! i \<noteq> pm ! j" by simp
  qed
  have "set (filter (\<lambda>m. m \<noteq> - 1) pm) \<subseteq> int ` {..<num_true}"
  proof
    fix m assume "m \<in> set (filter (\<lambda>m. m \<noteq> - 1) pm)"
    with range have "0 \<le> m" "m < int num_true" by auto
    then have "m = int (nat m)" "nat m < num_true" by simp_all
    then show "m \<in> int ` {..<num_true}" by blast
  qed
  then have "card (set (filter (\<lambda>m. m \<noteq> - 1) pm)) \<le> card (int ` {..<num_true})"
    by (intro card_mono) simp_all
  also have "\<dots> \<le> num_true"
    using card_image_le[of "{..<num_true}" int] by simp
  finally have "card (set (filter (\<lambda>m. m \<noteq> - 1) pm)) \<le> num_true" .
  then have "length (filter (\<lambda>m. m \<noteq> - 1) pm) \<le> num_true"
    using distinct_card[OF dist] by (simp only:)
  moreover have "length (filter (\<lambda>m. m \<noteq> - 1) pm) \<le> num_pred"
    using len length_filter_le[of "\<lambda>m. m \<noteq> - 1" pm] by simp
  ultimately have cnt: "length (filter (\<lambda>m. m \<noteq> - 1) pm) \<le> min num_true num_pred"
    by simp
  from res len range cnt dist show ?thesis by blast
qed

text \<open>
  The scenario of the spec: two ground-truth and three predicted boxes with threshold
  0.5 give the matches \<open>[0, 1, -1]\<close>; without ground-truth boxes nothing is matched.
\<close>

theorem match_boxes_one_to_one_witness:
  "match_boxes (Tensor [2, 3] [9 / 10, 1 / 10, 0, 2 / 10, 8 / 10, 95 / 100]) (1 / 2)
     = Inr (Tensor [3] [0, 1, - 1])
   \<and> length (filter (\<lambda>m. m \<noteq> - 1) [0, 1, - 1 :: int]) \<le> min 2 3
   \<and> distinct (filter (\<lambda>m. m \<noteq> - 1) [0, 1, - 1 :: int])
   \<and> match_boxes (Tensor [0, 3] []) (1 / 2) = Inr (Tensor [3] [- 1, - 1, - 1])"
proof -
  let ?ious = "Tensor [2, 3] [9 / 10, 1 / 10, 0, 2 / 10, 8 / 10, 95 / 100 :: real]"
  have h: "shape ?ious = [2, 3]" by simp
  have 1: "match_boxes ?ious (1 / 2) = Inr (Tensor [3] [0, 1, - 1])" by code_simp
  have 2: "match_boxes (Tensor [0, 3] []) (1 / 2) = Inr (Tensor [3] [- 1, - 1, - 1])" by code_simp
  from match_boxes_one_to_one[OF h, of "1 / 2"] 1 2 show ?thesis by auto
qed

text \<open>
  Claim C3, as the code has it. Every pair recorded by \<open>match_boxes\<close> has an IoU of at
  least \<open>min threshold (1 - 1e-10)\<close>, the value the inner loop starts from; so it has an
  IoU of at least the threshold whenever the threshold is at most \<open>1 - 1e-10\<close>.
\<close>

theorem match_boxes_threshold:
  assumes "shape ious = [num_true, num_pred]"
      and "match_boxes ious threshold = Inr matches"
      and "j < num_pred"
      and "vals matches ! j \<noteq> - 1"
  shows "0 \<le> vals matches ! j \<and> vals matches ! j < int num_true \<and>
         min threshold (1 - 1 / 10 ^ 10) \<le> getitem2 ious (nat (vals matches ! j)) j \<and>
         (threshold \<le> 1 - 1 / 10 ^ 10 \<longrightarrow> threshold \<le> getitem2 ious (nat (vals matches ! j)) j)"
proof -
  from match_boxes_result[OF assms(1), of threshold]
  obtain pm where res: "match_boxes ious threshold = Inr (Tensor [num_pred] pm)"
    and R: "\<forall>j<num_pred.
          (pm ! j = - 1 \<and>
             (\<forall>i<num_true. (\<forall>j'<j. pm ! j' \<noteq> int i) \<longrightarrow>
                 getitem2 ious i j < min threshold (1 - 1 / 10 ^ 10)))
        \<or> (\<exists>k<num_true. pm ! j = int k \<and> (\<forall>j'<j. pm ! j' \<noteq> int k) \<and>
               min threshold (1 - 1 / 10 ^ 10) \<le> getitem2 ious k j \<and>
               (\<forall>i<num_true. (\<forall>j'<j. pm ! j' \<noteq> int i) \<longrightarrow>
                   getitem2 ious i j \<le> getitem2 ious k j \<and>
                   (getitem2 ious i j = getitem2 ious k j \<longrightarrow> i \<le> k)))"
    by (elim exE conjE) (rule that)
  have pm: "vals matches = pm" using res assms(2) by simp
  have "vals matches ! j = - 1
      \<or> (\<exists>k<num_true. vals matches ! j = int k \<and>
            min threshold (1 - 1 / 10 ^ 10) \<le> getitem2 ious k j)"
    using R[rule_format, OF assms(3)] unfolding pm by (elim disjE exE conjE) (simp, blast)
  with assms(4) obtain k where "k < num_true" "vals matches ! j = int k"
      "min threshold (1 - 1 / 10 ^ 10) \<le> getitem2 ious k j"
    by blast
  then show ?thesis by auto
qed

text \<open>In the scenario of the spec, predicted box 1 is matched to ground-truth box 1 at IoU 0.8.\<close>

theorem match_boxes_threshold_witness:
  "match_boxes (Tensor [2, 3] [9 / 10, 1 / 10, 0, 2 / 10, 8 / 10, 95 / 100]) (1 / 2)
     = Inr (Tensor [3] [0, 1, - 1])
   \<and> min (1 / 2) (1 - 1 / 10 ^ 10)
       \<le> getitem2 (Tensor [2, 3] [9 / 10, 1 / 10, 0, 2 / 10, 8 / 10, 95 / 100 :: real]) 1 1
   \<and> 1 / 2 \<le> getitem2 (Tensor [2, 3] [9 / 10, 1 / 10, 0, 2 / 10, 8 / 10, 95 / 100 :: real]) 1 1"
proof -
  let ?ious = "Tensor [2, 3] [9 / 10, 1 / 10, 0, 2 / 10, 8 / 10, 95 / 100 :: real]"
  have h: "shape ?ious = [2, 3]" "(1::nat) < 3" by simp_all
  have r: "match_boxes ?ious (1 / 2) = Inr (Tensor [3] [0, 1, - 1])" by code_simp
  have m: "vals (Tensor [3] [0, 1, - 1 :: int]) ! 1 \<noteq> - 1" by simp
  from match_boxes_threshold[OF h(1) r h(2) m] r show ?thesis by simp
qed

text \<open>
  The claim as the spec words it, for every threshold, fails at the threshold 1: a pair
  with IoU 0.99999999995 is recorded, because the loop starts from \<open>1 - 1e-10\<close>. It
  fails at the threshold 2 as well, where a pair with IoU 1 is recorded.
\<close>

theorem match_boxes_above_clamp:
  "match_boxes (Tensor [1, 1] [99999999995 / 100000000000]) 1 = Inr (Tensor [1] [0])
   \<and> getitem2 (Tensor [1, 1] [99999999995 / 100000000000 :: real]) 0 0 < 1
   \<and> match_boxes (Tensor [1, 1] [1]) 2 = Inr (Tensor [1] [0])
   \<and> getitem2 (Tensor [1, 1] [1 :: real]) 0 0 < 2"
proof (intro conjI)
  show "match_boxes (Tensor [1, 1] [99999999995 / 100000000000]) 1 = Inr (Tensor [1] [0])"
    by code_simp
  show "getitem2 (Tensor [1, 1] [99999999995 / 100000000000 :: real]) 0 0 < 1"
    by (simp add: getitem2_def)
  show "match_boxes (Tensor [1, 1] [1]) 2 = Inr (Tensor [1] [0])"
    by code_simp
  show "getitem2 (Tensor [1, 1] [1 :: real]) 0 0 < 2"
    by (simp add: getitem2_def)
qed




end
